theory Spec2Isabelle
  imports Main
begin

section \<open>The boundary to the Go standard library\<close>

text \<open>
  The client is written against \<open>path\<close>, \<open>net/url\<close>, \<open>net/http\<close> and
  \<open>encoding/json\<close>. None of them belongs to the repository, so the functions the client
  calls are taken as parameters: every theorem below holds for whatever these functions
  compute. Byte slices and strings are both lists of characters; a \<open>nil\<close> slice is the
  empty list.
\<close>

type_synonym bytes = string

record stdlib =
  path_Join :: "string list \<Rightarrow> string"
  url_QueryEscape :: "string \<Rightarrow> string"
  http_NewRequest :: "string \<Rightarrow> string \<Rightarrow> string option"
    \<comment> \<open>method and URL; the result is the error, \<open>None\<close> when the request is built\<close>

section \<open>Errors\<close>

text \<open>
  \<open>ErrNotImplemented\<close> is the package's sentinel (\<open>errors.New\<close>). \<open>LibError\<close> is an
  error value made outside the package (transport, URL parsing, body reading, JSON),
  \<open>StatusError\<close> is \<open>fmt.Errorf("status code %d", code)\<close>, and \<open>Wrapf ctx e\<close> is
  \<open>fmt.Errorf(ctx + ": %w", e)\<close>.
\<close>

datatype error =
    ErrNotImplemented
  | LibError string
  | StatusError int
  | Wrapf string error

text \<open>\<open>errors.Is\<close>: walk the chain of wrapped errors, comparing by identity.\<close>

fun errors_Is :: "error \<Rightarrow> error \<Rightarrow> bool" where
  "errors_Is (Wrapf ctx e) target = (Wrapf ctx e = target \<or> errors_Is e target)"
| "errors_Is e target = (e = target)"

section \<open>Options and construction\<close>

datatype limiter = NewUnlimited | UserLimiter string
datatype http_Client = DefaultClient | UserClient string

record options =
  host :: string
  rateLimit :: "limiter option"
  httpClient :: "http_Client option"

text \<open>An \<open>option\<close> of the source is a function that mutates the options and may fail.\<close>

type_synonym option_fn = "options \<Rightarrow> options \<times> error option"

definition WithHost :: "stdlib \<Rightarrow> string \<Rightarrow> option_fn" where
  "WithHost lib h opt =
     (case http_NewRequest lib ''GET'' (''https://'' @ h) of
        Some e \<Rightarrow> (opt, Some (Wrapf ''invalid host'' (LibError e)))
      | None \<Rightarrow> (opt\<lparr>host := h\<rparr>, None))"

definition WithRateLimit :: "limiter \<Rightarrow> option_fn" where
  "WithRateLimit rl opt = (opt\<lparr>rateLimit := Some rl\<rparr>, None)"

definition WithHttpClient :: "http_Client \<Rightarrow> option_fn" where
  "WithHttpClient hc opt = (opt\<lparr>httpClient := Some hc\<rparr>, None)"

record Client =
  apiKey :: string
  options :: "options option"

definition zero_options :: options where
  "zero_options = \<lparr>host = [], rateLimit = None, httpClient = None\<rparr>"

definition zero_Client :: Client where
  "zero_Client = \<lparr>apiKey = [], options = None\<rparr>"

text \<open>The loop over \<open>opts\<close> in \<open>New\<close>: it returns at the first option that fails.\<close>

fun applyOpts :: "option_fn list \<Rightarrow> options \<Rightarrow> options \<times> error option" where
  "applyOpts [] opt = (opt, None)"
| "applyOpts (f # fs) opt =
     (case f opt of
        (opt', Some err) \<Rightarrow> (opt', Some err)
      | (opt', None) \<Rightarrow> applyOpts fs opt')"

definition withDefaults :: "options \<Rightarrow> options" where
  "withDefaults opt =
     (let o1 = (if host opt = [] then opt\<lparr>host := ''twitter154.p.rapidapi.com''\<rparr> else opt);
          o2 = (if rateLimit o1 = None then o1\<lparr>rateLimit := Some NewUnlimited\<rparr> else o1);
          o3 = (if httpClient o2 = None then o2\<lparr>httpClient := Some DefaultClient\<rparr> else o2)
      in o3)"

definition New :: "string \<Rightarrow> option_fn list \<Rightarrow> Client \<times> error option" where
  "New k opts =
     (case applyOpts opts zero_options of
        (opt, Some err) \<Rightarrow> (zero_Client, Some (Wrapf ''bad option'' err))
      | (opt, None) \<Rightarrow> (\<lparr>apiKey = k, options = Some (withDefaults opt)\<rparr>, None))"

section \<open>Outcomes of a call\<close>

text \<open>
  A call either returns, or panics (a nil pointer is dereferenced, an index is out of
  range), or never returns because the transport never answers.
\<close>

datatype 'a outcome = Panics | Blocks | Returns 'a

fun andThen :: "'a outcome \<Rightarrow> ('a \<Rightarrow> 'b outcome) \<Rightarrow> 'b outcome" where
  "andThen Panics f = Panics"
| "andThen Blocks f = Blocks"
| "andThen (Returns x) f = f x"

section \<open>Request builder\<close>

text \<open>A parameter value is an \<open>any\<close>; the client stores strings and integers in it.\<close>

datatype any = AnyNil | AnyString string | AnyInt int

record param =
  key :: string
  val :: any

fun showNat :: "nat \<Rightarrow> string" where
  "showNat n =
     (if n < 10 then [''0123456789'' ! n]
      else showNat (n div 10) @ [''0123456789'' ! (n mod 10)])"

declare showNat.simps [simp del]

text \<open>\<open>fmt.Sprintf("%v", v)\<close>.\<close>

fun fmt_v :: "any \<Rightarrow> string" where
  "fmt_v AnyNil = ''<nil>''"
| "fmt_v (AnyString s) = s"
| "fmt_v (AnyInt i) = (if i < 0 then ''-'' @ showNat (nat (- i)) else showNat (nat i))"

definition buildUrl :: "stdlib \<Rightarrow> Client \<Rightarrow> string list \<Rightarrow> string outcome" where
  "buildUrl lib c p =
     (case options c of
        None \<Rightarrow> Panics
      | Some opt \<Rightarrow> Returns (''https://'' @ host opt @ ''/'' @ path_Join lib p))"

text \<open>The body of the loop over \<open>params\<close>, with the index \<open>i\<close> of the parameter.\<close>

fun paramsLoop :: "stdlib \<Rightarrow> nat \<Rightarrow> param list \<Rightarrow> string \<Rightarrow> string" where
  "paramsLoop lib i [] uri = uri"
| "paramsLoop lib i (p # ps) uri =
     paramsLoop lib (Suc i) ps
       (uri @ (if i = 0 then ''?'' else ''&'') @ key p @ ''='' @
        url_QueryEscape lib (fmt_v (val p)))"

definition buildUrlWithParameters ::
  "stdlib \<Rightarrow> Client \<Rightarrow> string list \<Rightarrow> param list \<Rightarrow> string outcome" where
  "buildUrlWithParameters lib c path params =
     andThen (buildUrl lib c path) (\<lambda>uri. Returns (paramsLoop lib 0 params uri))"

section \<open>Executor\<close>

record request =
  Method :: string
  URL :: string
  Header :: "(string \<times> string) list"

text \<open>A response: its status code and what \<open>io.ReadAll\<close> of its body gives.\<close>

record response =
  StatusCode :: int
  Body :: "string + bytes"

text \<open>
  The state a call runs in. Outside the client: what the transport answers to the
  successive round trips (\<open>Inl\<close> is a transport error), the requests sent so far and the
  number of admissions taken from the rate limiter. Inside the program: the memory that
  slices and pointers refer to, of a type \<open>'h\<close> that the decoder chooses. A value that
  holds a slice or a pointer holds an address into this memory, so two values can share the
  memory that one of them is later decoded into.
\<close>

record 'h world =
  script :: "(string + response) list"
  sent :: "request list"
  taken :: nat
  memory :: 'h

definition do ::
  "Client \<Rightarrow> request \<Rightarrow> 'h world \<Rightarrow> ((bytes \<times> error option) \<times> 'h world) outcome" where
  "do c req w =
     (case options c of
        None \<Rightarrow> Panics
      | Some opt \<Rightarrow>
         (let req' = req\<lparr>Header := Header req @
                        [(''X-RapidAPI-Key'', apiKey c), (''X-RapidAPI-Host'', host opt)]\<rparr>
          in (case rateLimit opt of
                None \<Rightarrow> Panics
              | Some rl \<Rightarrow>
                 (let w1 = w\<lparr>taken := Suc (taken w)\<rparr>
                  in (case httpClient opt of
                        None \<Rightarrow> Panics
                      | Some hc \<Rightarrow>
                         (case script w1 of
                            [] \<Rightarrow> Blocks
                          | answer # rest \<Rightarrow>
                             (let w2 = w1\<lparr>script := rest, sent := sent w1 @ [req']\<rparr>
                              in (case answer of
                                    Inl e \<Rightarrow>
                                      Returns (([], Some (Wrapf ''send request'' (LibError e))), w2)
                                  | Inr resp \<Rightarrow>
                                     (if StatusCode resp < 200 \<or> StatusCode resp \<ge> 300
                                      then Returns (([], Some (StatusError (StatusCode resp))), w2)
                                      else (case Body resp of
                                              Inl e \<Rightarrow>
                                                Returns (([], Some (Wrapf ''read response body''
                                                                      (LibError e))), w2)
                                            | Inr data \<Rightarrow> Returns ((data, None), w2)))))))))))"

definition get ::
  "stdlib \<Rightarrow> Client \<Rightarrow> string list \<Rightarrow> param list \<Rightarrow> 'h world \<Rightarrow>
   ((bytes \<times> error option) \<times> 'h world) outcome" where
  "get lib c path params w =
     andThen (buildUrlWithParameters lib c path params) (\<lambda>url.
       case http_NewRequest lib ''GET'' url of
         Some e \<Rightarrow> Returns (([], Some (Wrapf ''create request'' (LibError e))), w)
       | None \<Rightarrow> do c \<lparr>Method = ''GET'', URL = url, Header = []\<rparr> w)"

section \<open>Generic decoder and paginator\<close>

text \<open>
  The type parameter \<open>R\<close> of \<open>getResult\<close> and \<open>getResultPaginated\<close> is constrained by an
  interface; here it is the dictionary of what the functions use of \<open>R\<close>: its zero value
  (\<open>var r R\<close>), \<open>json.Unmarshal\<close> into a variable of type \<open>R\<close>, and the methods of the
  interface. \<open>json.Unmarshal\<close> takes the bytes, the value the variable holds before the
  call and the memory; it gives an error or the value the variable holds afterwards, and
  the memory afterwards. It decodes in place: it leaves the fields that the JSON text does
  not mention as they are, and it writes the elements of an array into the backing array
  that the slice in the variable already has, when that is large enough.
\<close>

record ('t, 'r, 'h) result =
  zeroT :: 't
  zeroR :: 'r
  UnmarshalR :: "bytes \<Rightarrow> 'r \<Rightarrow> 'h \<Rightarrow> (string + 'r) \<times> 'h"
  ResultR :: "'r \<Rightarrow> 't"

record ('t, 'r, 'h) resultPaginated =
  zero :: 'r
  Unmarshal :: "bytes \<Rightarrow> 'r \<Rightarrow> 'h \<Rightarrow> (string + 'r) \<times> 'h"
  Result :: "'r \<Rightarrow> 't list"
  Token :: "'r \<Rightarrow> string"

definition getResult ::
  "('t, 'r, 'h) result \<Rightarrow> stdlib \<Rightarrow> Client \<Rightarrow> string list \<Rightarrow> param list \<Rightarrow> 'h world \<Rightarrow>
   (('t \<times> error option) \<times> 'h world) outcome" where
  "getResult R lib c path params w =
     andThen (get lib c path params w) (\<lambda>((data, err), w1).
       case err of
         Some e \<Rightarrow> Returns ((zeroT R, Some (Wrapf ''get'' e)), w1)
       | None \<Rightarrow>
          (case UnmarshalR R data (zeroR R) (memory w1) of
             (Inl e, h) \<Rightarrow>
               Returns ((zeroT R, Some (Wrapf ''unmarshal response'' (LibError e))),
                        w1\<lparr>memory := h\<rparr>)
           | (Inr r, h) \<Rightarrow> Returns ((ResultR R r, None), w1\<lparr>memory := h\<rparr>)))"

text \<open>
  The \<open>for\<close> loop of \<open>getResultPaginated\<close>: \<open>r\<close> is the page decoded last, \<open>results\<close> the
  accumulator, \<open>path\<close> and \<open>params\<close> the slices after the two \<open>append\<close>s. \<open>append\<close> copies
  the items of the page as they are, with the addresses they hold; the next page is then
  decoded into the same \<open>r\<close>, in the memory that the copies still refer to.
\<close>

function pageLoop ::
  "('t, 'r, 'h) resultPaginated \<Rightarrow> stdlib \<Rightarrow> Client \<Rightarrow> string list \<Rightarrow> param list \<Rightarrow>
   'r \<Rightarrow> 't list \<Rightarrow> 'h world \<Rightarrow> (('t list \<times> error option) \<times> 'h world) outcome" where
  "pageLoop R lib c path params r results w =
     (if length (Result R r) = 0 then Returns ((results, None), w)
      else
        (case get lib c path params w of
           Panics \<Rightarrow> Panics
         | Blocks \<Rightarrow> Blocks
         | Returns ((data, Some e), w1) \<Rightarrow> Returns (([], Some (Wrapf ''get'' e)), w1)
         | Returns ((data, None), w1) \<Rightarrow>
            (case Unmarshal R data r (memory w1) of
               (Inl e, h) \<Rightarrow>
                 Returns (([], Some (Wrapf ''unmarshal response'' (LibError e))),
                          w1\<lparr>memory := h\<rparr>)
             | (Inr r', h) \<Rightarrow>
                (if params = [] then Panics
                 else pageLoop R lib c path
                        (params[length params - 1 :=
                           (params ! (length params - 1))\<lparr>val := AnyString (Token R r')\<rparr>])
                        r' (results @ Result R r) (w1\<lparr>memory := h\<rparr>)))))"
  by pat_completeness auto
termination
  by (relation "measure (\<lambda>(R, lib, c, path, params, r, results, w). length (script w))")
     (auto simp: get_def do_def buildUrlWithParameters_def buildUrl_def Let_def
           split: option.splits list.splits sum.splits if_splits)

declare pageLoop.simps [simp del]

definition getResultPaginated ::
  "('t, 'r, 'h) resultPaginated \<Rightarrow> stdlib \<Rightarrow> Client \<Rightarrow> string list \<Rightarrow> param list \<Rightarrow>
   'h world \<Rightarrow> (('t list \<times> error option) \<times> 'h world) outcome" where
  "getResultPaginated R lib c path params w =
     (case get lib c path params w of
        Panics \<Rightarrow> Panics
      | Blocks \<Rightarrow> Blocks
      | Returns ((data, Some e), w1) \<Rightarrow> Returns (([], Some (Wrapf ''get'' e)), w1)
      | Returns ((data, None), w1) \<Rightarrow>
         (case Unmarshal R data (zero R) (memory w1) of
            (Inl e, h) \<Rightarrow>
              Returns (([], Some (Wrapf ''unmarshal response'' (LibError e))),
                       w1\<lparr>memory := h\<rparr>)
          | (Inr r, h) \<Rightarrow>
              pageLoop R lib c (path @ [''continuation''])
                (params @ [\<lparr>key = ''continuation_token'', val = AnyString (Token R r)\<rparr>])
                r [] (w1\<lparr>memory := h\<rparr>)))"

section \<open>Endpoints\<close>

definition pageLimit :: int where
  "pageLimit = 100"

record getUserTweetsOptions =
  includeReplies :: bool
  includePinned :: bool

type_synonym getUserTweetsOption = "getUserTweetsOptions \<Rightarrow> getUserTweetsOptions"

definition IncludeReplies :: getUserTweetsOption where
  "IncludeReplies opt = opt\<lparr>includeReplies := True\<rparr>"

definition IncludePinned :: getUserTweetsOption where
  "IncludePinned opt = opt\<lparr>includePinned := True\<rparr>"

text \<open>
  \<open>Results\<close> is a slice. Nothing else refers to its backing array (\<open>append\<close> copies the
  elements out of it), so the record holds the array itself: the elements of the slice in
  \<open>Results\<close>, and in \<open>ResultsSpare\<close> what the array holds between the length and the
  capacity of the slice.
\<close>

record 't getUserTweetsResponse =
  Results :: "'t list"
  ResultsSpare :: "'t list"
  ContinuationToken :: string

definition zeroResponse :: "'t getUserTweetsResponse" where
  "zeroResponse = \<lparr>Results = [], ResultsSpare = [], ContinuationToken = []\<rparr>"

text \<open>
  \<open>getUserTweetsResponse\<close> as an instance of the interface; \<open>json\<close> is \<open>json.Unmarshal\<close>
  into a variable of this type.
\<close>

type_synonym ('t, 'h) unmarshaller =
  "bytes \<Rightarrow> 't getUserTweetsResponse \<Rightarrow> 'h \<Rightarrow> (string + 't getUserTweetsResponse) \<times> 'h"

definition getUserTweetsShape ::
  "('t, 'h) unmarshaller \<Rightarrow> ('t, 't getUserTweetsResponse, 'h) resultPaginated" where
  "getUserTweetsShape json =
     \<lparr>zero = zeroResponse, Unmarshal = json, Result = Results, Token = ContinuationToken\<rparr>"

text \<open>The parameters \<open>GetUserTweets\<close> builds from the user and the options.\<close>

definition getUserTweetsParams :: "string \<Rightarrow> getUserTweetsOption list \<Rightarrow> param list" where
  "getUserTweetsParams userId opts =
     (let params = [\<lparr>key = ''user_id'', val = AnyString userId\<rparr>,
                    \<lparr>key = ''limit'', val = AnyInt pageLimit\<rparr>];
          opt = fold (\<lambda>f acc. f acc) opts \<lparr>includeReplies = False, includePinned = False\<rparr>;
          params = (if includeReplies opt
                    then params @ [\<lparr>key = ''include_replies'', val = AnyString ''true''\<rparr>]
                    else params @ [\<lparr>key = ''include_replies'', val = AnyString ''false''\<rparr>]);
          params = (if includePinned opt
                    then params @ [\<lparr>key = ''include_pinned'', val = AnyString ''true''\<rparr>]
                    else params @ [\<lparr>key = ''include_pinned'', val = AnyString ''false''\<rparr>])
      in params)"

definition GetUserTweets ::
  "('t, 'h) unmarshaller \<Rightarrow>
   stdlib \<Rightarrow> Client \<Rightarrow> string \<Rightarrow> getUserTweetsOption list \<Rightarrow> 'h world \<Rightarrow>
   (('t list \<times> error option) \<times> 'h world) outcome" where
  "GetUserTweets json lib c userId opts w =
     getResultPaginated (getUserTweetsShape json) lib c [''user'', ''tweets'']
       (getUserTweetsParams userId opts) w"

text \<open>The endpoints that are not implemented; each returns its zero value and the sentinel.\<close>

definition GetUserLikes ::
  "Client \<Rightarrow> string \<Rightarrow> 'h world \<Rightarrow> (('t list \<times> error option) \<times> 'h world) outcome" where
  "GetUserLikes c userId w = Returns (([], Some ErrNotImplemented), w)"

definition GetUserMedia ::
  "Client \<Rightarrow> string \<Rightarrow> 'h world \<Rightarrow> ((any \<times> error option) \<times> 'h world) outcome" where
  "GetUserMedia c userId w = Returns ((AnyNil, Some ErrNotImplemented), w)"

definition GetTweetUserRetweets ::
  "Client \<Rightarrow> string \<Rightarrow> 'h world \<Rightarrow> (('u list \<times> error option) \<times> 'h world) outcome" where
  "GetTweetUserRetweets c tweetId w = Returns (([], Some ErrNotImplemented), w)"

definition Search ::
  "Client \<Rightarrow> string \<Rightarrow> 'h world \<Rightarrow> (('t list \<times> error option) \<times> 'h world) outcome" where
  "Search c query w = Returns (([], Some ErrNotImplemented), w)"

definition GeoSearch ::
  "Client \<Rightarrow> string \<Rightarrow> 'g list \<Rightarrow> 'h world \<Rightarrow> (('t list \<times> error option) \<times> 'h world) outcome" where
  "GeoSearch c query opts w = Returns (([], Some ErrNotImplemented), w)"

definition Hashtag ::
  "Client \<Rightarrow> string \<Rightarrow> 'h world \<Rightarrow> (('t list \<times> error option) \<times> 'h world) outcome" where
  "Hashtag c hashtag w = Returns (([], Some ErrNotImplemented), w)"

definition GetListDetails ::
  "Client \<Rightarrow> string \<Rightarrow> 'h world \<Rightarrow> ((any \<times> error option) \<times> 'h world) outcome" where
  "GetListDetails c listId w = Returns ((AnyNil, Some ErrNotImplemented), w)"

definition GetListTweets ::
  "Client \<Rightarrow> string \<Rightarrow> 'h world \<Rightarrow> (('t list \<times> error option) \<times> 'h world) outcome" where
  "GetListTweets c listId w = Returns (([], Some ErrNotImplemented), w)"

definition GetTrends ::
  "Client \<Rightarrow> int \<Rightarrow> 'h world \<Rightarrow> ((any list \<times> error option) \<times> 'h world) outcome" where
  "GetTrends c woeId w = Returns (([], Some ErrNotImplemented), w)"

definition GetLocations ::
  "Client \<Rightarrow> 'h world \<Rightarrow> ((any list \<times> error option) \<times> 'h world) outcome" where
  "GetLocations c w = Returns (([], Some ErrNotImplemented), w)"

section \<open>The hand-written client of \<open>twitter154/api.go\<close>\<close>

text \<open>
  The file under \<open>twitter154\<close> has the same \<open>New\<close>, \<open>buildUrl\<close> and \<open>do\<close>, word for word.
  Its \<open>buildUrlWithParameters\<close> formats the value with \<open>%v\<close> and does not escape it, and
  each paginated endpoint has a loop of its own.
\<close>

fun twitter154_paramsLoop :: "nat \<Rightarrow> param list \<Rightarrow> string \<Rightarrow> string" where
  "twitter154_paramsLoop i [] url = url"
| "twitter154_paramsLoop i (p # ps) url =
     twitter154_paramsLoop (Suc i) ps
       (url @ (if i = 0 then ''?'' else ''&'') @ key p @ ''='' @ fmt_v (val p))"

definition twitter154_buildUrlWithParameters ::
  "stdlib \<Rightarrow> Client \<Rightarrow> string list \<Rightarrow> param list \<Rightarrow> string outcome" where
  "twitter154_buildUrlWithParameters lib c path params =
     andThen (buildUrl lib c path) (\<lambda>url. Returns (twitter154_paramsLoop 0 params url))"

definition twitter154_get ::
  "stdlib \<Rightarrow> Client \<Rightarrow> string list \<Rightarrow> param list \<Rightarrow> 'h world \<Rightarrow>
   ((bytes \<times> error option) \<times> 'h world) outcome" where
  "twitter154_get lib c path params w =
     andThen (twitter154_buildUrlWithParameters lib c path params) (\<lambda>url.
       case http_NewRequest lib ''GET'' url of
         Some e \<Rightarrow> Returns (([], Some (Wrapf ''create request'' (LibError e))), w)
       | None \<Rightarrow> do c \<lparr>Method = ''GET'', URL = url, Header = []\<rparr> w)"

text \<open>
  The \<open>for token != ""\<close> loop of the hand-written \<open>GetUserTweets\<close>. Each round declares a
  new \<open>r\<close>, so every page is decoded into a zero value.
\<close>

function twitter154_tokenLoop ::
  "('t, 'h) unmarshaller \<Rightarrow>
   stdlib \<Rightarrow> Client \<Rightarrow> string \<Rightarrow> param list \<Rightarrow> 't list \<Rightarrow> 'h world \<Rightarrow>
   (('t list \<times> error option) \<times> 'h world) outcome" where
  "twitter154_tokenLoop json lib c token continutationParams tweets w =
     (if token = [] then Returns ((tweets, None), w)
      else
        (case twitter154_get lib c [''user'', ''tweets'', ''continuation'']
                continutationParams w of
           Panics \<Rightarrow> Panics
         | Blocks \<Rightarrow> Blocks
         | Returns ((data, Some e), w1) \<Rightarrow> Returns (([], Some (Wrapf ''get user'' e)), w1)
         | Returns ((data, None), w1) \<Rightarrow>
            (case json data zeroResponse (memory w1) of
               (Inl e, h) \<Rightarrow>
                 Returns (([], Some (Wrapf ''unmarshal response'' (LibError e))),
                          w1\<lparr>memory := h\<rparr>)
             | (Inr r, h) \<Rightarrow>
                (if continutationParams = [] then Panics
                 else twitter154_tokenLoop json lib c (ContinuationToken r)
                        (take (length continutationParams - 1) continutationParams @
                         [\<lparr>key = ''continuation_token'',
                           val = AnyString (ContinuationToken r)\<rparr>])
                        (tweets @ Results r) (w1\<lparr>memory := h\<rparr>)))))"
  by pat_completeness auto
termination
  by (relation "measure (\<lambda>(json, lib, c, token, ps, tweets, w). length (script w))")
     (auto simp: twitter154_get_def do_def twitter154_buildUrlWithParameters_def
                 buildUrl_def Let_def
           split: option.splits list.splits sum.splits if_splits)

declare twitter154_tokenLoop.simps [simp del]

definition twitter154_GetUserTweets ::
  "('t, 'h) unmarshaller \<Rightarrow>
   stdlib \<Rightarrow> Client \<Rightarrow> string \<Rightarrow> getUserTweetsOption list \<Rightarrow> 'h world \<Rightarrow>
   (('t list \<times> error option) \<times> 'h world) outcome" where
  "twitter154_GetUserTweets json lib c userId opts w =
     (let params = getUserTweetsParams userId opts
      in (case twitter154_get lib c [''user'', ''tweets''] params w of
            Panics \<Rightarrow> Panics
          | Blocks \<Rightarrow> Blocks
          | Returns ((data, Some e), w1) \<Rightarrow> Returns (([], Some (Wrapf ''get user'' e)), w1)
          | Returns ((data, None), w1) \<Rightarrow>
             (case json data zeroResponse (memory w1) of
                (Inl e, h) \<Rightarrow>
                  Returns (([], Some (Wrapf ''unmarshal response'' (LibError e))),
                           w1\<lparr>memory := h\<rparr>)
              | (Inr r, h) \<Rightarrow>
                  twitter154_tokenLoop json lib c (ContinuationToken r)
                    (params @ [\<lparr>key = ''continuation_token'',
                                val = AnyString (ContinuationToken r)\<rparr>])
                    [] (w1\<lparr>memory := h\<rparr>))))"

section \<open>Notions used to state the properties\<close>

text \<open>A client whose options, rate limiter and HTTP client are all present.\<close>

definition ready :: "Client \<Rightarrow> bool" where
  "ready c =
     (case options c of
        None \<Rightarrow> False
      | Some opt \<Rightarrow> rateLimit opt \<noteq> None \<and> httpClient opt \<noteq> None)"

text \<open>\<open>http.NewRequest\<close> accepts the URL built for a path and its parameters.\<close>

definition accepted :: "stdlib \<Rightarrow> Client \<Rightarrow> string list \<Rightarrow> param list \<Rightarrow> bool" where
  "accepted lib c path params =
     (case buildUrlWithParameters lib c path params of
        Returns url \<Rightarrow> http_NewRequest lib ''GET'' url = None
      | _ \<Rightarrow> False)"

text \<open>The request that \<open>get\<close> hands to the transport for a path and its parameters.\<close>

definition wire :: "stdlib \<Rightarrow> Client \<Rightarrow> string list \<Rightarrow> param list \<Rightarrow> request" where
  "wire lib c path params =
     \<lparr>Method = ''GET'',
      URL = (case buildUrlWithParameters lib c path params of Returns url \<Rightarrow> url | _ \<Rightarrow> []),
      Header = [(''X-RapidAPI-Key'', apiKey c),
                (''X-RapidAPI-Host'', case options c of Some opt \<Rightarrow> host opt | None \<Rightarrow> [])]\<rparr>"

text \<open>The same two notions for the builder of \<open>twitter154/api.go\<close>.\<close>

definition twitter154_accepted ::
  "stdlib \<Rightarrow> Client \<Rightarrow> string list \<Rightarrow> param list \<Rightarrow> bool" where
  "twitter154_accepted lib c path params =
     (case twitter154_buildUrlWithParameters lib c path params of
        Returns url \<Rightarrow> http_NewRequest lib ''GET'' url = None
      | _ \<Rightarrow> False)"

definition twitter154_wire ::
  "stdlib \<Rightarrow> Client \<Rightarrow> string list \<Rightarrow> param list \<Rightarrow> request" where
  "twitter154_wire lib c path params =
     \<lparr>Method = ''GET'',
      URL = (case twitter154_buildUrlWithParameters lib c path params of
               Returns url \<Rightarrow> url | _ \<Rightarrow> []),
      Header = [(''X-RapidAPI-Key'', apiKey c),
                (''X-RapidAPI-Host'', case options c of Some opt \<Rightarrow> host opt | None \<Rightarrow> [])]\<rparr>"

definition continuationParam :: "string \<Rightarrow> param" where
  "continuationParam token = \<lparr>key = ''continuation_token'', val = AnyString token\<rparr>"

text \<open>
  The pages that the answers of the transport decode to, each decoded into the variable
  that holds the page before it, up to the first answer that is not a readable response
  with a status from 200 to 299 or that does not decode. Each page comes with the memory
  right after it was decoded.
\<close>

fun pagesOf ::
  "(bytes \<Rightarrow> 'r \<Rightarrow> 'h \<Rightarrow> (string + 'r) \<times> 'h) \<Rightarrow> 'r \<Rightarrow> 'h \<Rightarrow> (string + response) list \<Rightarrow>
   ('r \<times> 'h) list" where
  "pagesOf unm r h [] = []"
| "pagesOf unm r h (answer # rest) =
     (case answer of
        Inl e \<Rightarrow> []
      | Inr resp \<Rightarrow>
         (if StatusCode resp < 200 \<or> StatusCode resp \<ge> 300 then []
          else (case Body resp of
                  Inl e \<Rightarrow> []
                | Inr data \<Rightarrow>
                   (case unm data r h of
                      (Inl e, h') \<Rightarrow> []
                    | (Inr r', h') \<Rightarrow> (r', h') # pagesOf unm r' h' rest))))"


text \<open>
  What a caller sees of a call: the items it returned, each read through the memory at
  the time of the return with \<open>view\<close>, the error, and the number of requests sent.
\<close>

fun observe ::
  "('h \<Rightarrow> 't \<Rightarrow> 'v) \<Rightarrow> (('t list \<times> error option) \<times> 'h world) outcome \<Rightarrow>
   ('v list \<times> error option \<times> nat) outcome" where
  "observe view Panics = Panics"
| "observe view Blocks = Blocks"
| "observe view (Returns ((items, err), w)) =
     Returns (map (view (memory w)) items, err, length (sent w))"

text \<open>
  The query string as the specification words it: \<open>?\<close> before the first pair, \<open>&\<close> before
  each later one, every value encoded on its own by \<open>enc\<close>.
\<close>

fun queryString :: "(string \<Rightarrow> string) \<Rightarrow> param list \<Rightarrow> string" where
  "queryString enc [] = []"
| "queryString enc (p # ps) =
     ''?'' @ key p @ ''='' @ enc (fmt_v (val p)) @
     concat (map (\<lambda>q. ''&'' @ key q @ ''='' @ enc (fmt_v (val q))) ps)"

section \<open>A concrete library, decoder and client\<close>

text \<open>
  An instance of the library to run the client on concrete inputs. \<open>url_QueryEscape\<close>
  follows \<open>url.QueryEscape\<close>: letters, digits and \<open>-_.~\<close> stay, a space becomes \<open>+\<close>, any
  other byte becomes \<open>%\<close> and two upper-case hexadecimal digits. \<open>path_Join\<close> joins the
  segments with a slash, as \<open>path.Join\<close> does for non-empty segments without slashes or
  dots. \<open>http_NewRequest\<close> refuses the URLs that hold a control character (a byte below
  32, or 127), which \<open>http.NewRequest\<close> refuses too, and accepts the others.
\<close>

definition unreserved :: "char \<Rightarrow> bool" where
  "unreserved ch =
     (let n = (of_char ch :: nat)
      in (97 \<le> n \<and> n \<le> 122) \<or> (65 \<le> n \<and> n \<le> 90) \<or> (48 \<le> n \<and> n \<le> 57)
         \<or> ch \<in> set ''-_.~'')"

definition escapeChar :: "char \<Rightarrow> string" where
  "escapeChar ch =
     (if unreserved ch then [ch]
      else if ch = CHR '' '' then ''+''
      else [CHR ''%'', ''0123456789ABCDEF'' ! ((of_char ch :: nat) div 16),
            ''0123456789ABCDEF'' ! ((of_char ch :: nat) mod 16)])"

definition queryEscape :: "string \<Rightarrow> string" where
  "queryEscape s = concat (map escapeChar s)"

fun joinSlash :: "string list \<Rightarrow> string" where
  "joinSlash [] = []"
| "joinSlash [x] = x"
| "joinSlash (x # y # zs) = x @ ''/'' @ joinSlash (y # zs)"

definition newRequestCheck :: "string \<Rightarrow> string \<Rightarrow> string option" where
  "newRequestCheck method url =
     (if \<exists>ch \<in> set url. (of_char ch :: nat) < 32 \<or> (of_char ch :: nat) = 127
      then Some ''invalid control character in URL'' else None)"

definition sampleLib :: stdlib where
  "sampleLib = \<lparr>path_Join = joinSlash, url_QueryEscape = queryEscape,
                http_NewRequest = newRequestCheck\<rparr>"

text \<open>
  A tweet with three of its fields. \<open>MediaUrl\<close> is a slice of strings: the address of its
  backing array in the memory, its length and its capacity. The memory is the list of the
  backing arrays allocated so far, and the address of an array is its position in the
  list (a slice of capacity 0 has no array). \<open>viewTweet\<close> reads a tweet through a memory.
\<close>

record stringSlice =
  arr :: nat
  len :: nat
  cap :: nat

type_synonym heap = "string list list"

record sampleTweet =
  TweetId :: string
  Text :: string
  MediaUrl :: stringSlice

definition zeroTweet :: sampleTweet where
  "zeroTweet = \<lparr>TweetId = [], Text = [], MediaUrl = \<lparr>arr = 0, len = 0, cap = 0\<rparr>\<rparr>"

definition arrayAt :: "heap \<Rightarrow> nat \<Rightarrow> string list" where
  "arrayAt h a = (if a < length h then h ! a else [])"

definition viewTweet :: "heap \<Rightarrow> sampleTweet \<Rightarrow> string \<times> string \<times> string list" where
  "viewTweet h t = (TweetId t, Text t, take (len (MediaUrl t)) (arrayAt h (arr (MediaUrl t))))"

text \<open>
  A decoder over a stand-in for JSON. The body \<open>a:one:x1,x2;b:two:|t\<close> is the page with
  the token \<open>t\<close> and two tweets: \<open>a\<close> with the text \<open>one\<close> and the media \<open>x1\<close> and \<open>x2\<close>,
  and \<open>b\<close> with the text \<open>two\<close> and no media. A body without a bar, or a tweet without
  its three fields, is a syntax error, found before anything is written.
\<close>

fun splitOn :: "char \<Rightarrow> string \<Rightarrow> string list" where
  "splitOn sep [] = [[]]"
| "splitOn sep (ch # rest) =
     (if ch = sep then [] # splitOn sep rest
      else (case splitOn sep rest of
              [] \<Rightarrow> [[ch]]
            | word # ws \<Rightarrow> (ch # word) # ws))"

definition parseTweet :: "string \<Rightarrow> (string \<times> string \<times> string list) option" where
  "parseTweet s =
     (case splitOn CHR '':'' s of
        [tid, txt, media] \<Rightarrow> Some (tid, txt, if media = [] then [] else splitOn CHR '','' media)
      | _ \<Rightarrow> None)"

definition parseBody :: "bytes \<Rightarrow> ((string \<times> string \<times> string list) list \<times> string) option" where
  "parseBody data =
     (if CHR ''|'' \<notin> set data then None
      else (let tweets = takeWhile (\<lambda>ch. ch \<noteq> CHR ''|'') data;
                token = tl (dropWhile (\<lambda>ch. ch \<noteq> CHR ''|'') data);
                parsed = (if tweets = [] then [] else map parseTweet (splitOn CHR '';'' tweets))
            in if None \<in> set parsed then None else Some (map the parsed, token)))"

text \<open>
  Decoding an array into a slice, as \<open>encoding/json\<close> does it: element \<open>i\<close> of the array is
  decoded into element \<open>i\<close> of the backing array the slice has; a larger array is allocated
  (and the elements so far copied) only when \<open>i\<close> reaches the capacity; at the end the
  length is the number of elements decoded. An empty array gives a new empty slice.
\<close>

definition grown :: "nat \<Rightarrow> nat" where
  "grown n = max 4 (n + n div 2)"

fun decodeStrings :: "nat \<Rightarrow> string list \<Rightarrow> stringSlice \<Rightarrow> heap \<Rightarrow> stringSlice \<times> heap" where
  "decodeStrings i [] s h = (s\<lparr>len := i\<rparr>, h)"
| "decodeStrings i (x # xs) s h =
     (let (s1, h1) =
            (if i \<ge> cap s
             then (\<lparr>arr = length h, len = len s, cap = grown (cap s)\<rparr>,
                   h @ [take (len s) (arrayAt h (arr s)) @ replicate (grown (cap s) - len s) []])
             else (s, h));
          s2 = (if i \<ge> len s1 then s1\<lparr>len := i + 1\<rparr> else s1);
          h2 = h1[arr s2 := (arrayAt h1 (arr s2))[i := x]]
      in decodeStrings (i + 1) xs s2 h2)"

definition decodeStringArray :: "string list \<Rightarrow> stringSlice \<Rightarrow> heap \<Rightarrow> stringSlice \<times> heap" where
  "decodeStringArray xs s h =
     (if xs = [] then (\<lparr>arr = 0, len = 0, cap = 0\<rparr>, h) else decodeStrings 0 xs s h)"

text \<open>
  The same for the slice of tweets, whose backing array is \<open>a\<close> and whose length is \<open>n\<close>.
  A tweet is decoded into the element that is there: its \<open>MediaUrl\<close> is decoded into the
  slice that the element holds.
\<close>

fun decodeTweets ::
  "nat \<Rightarrow> (string \<times> string \<times> string list) list \<Rightarrow> sampleTweet list \<Rightarrow> nat \<Rightarrow> heap \<Rightarrow>
   sampleTweet list \<times> nat \<times> heap" where
  "decodeTweets i [] a n h = (a, i, h)"
| "decodeTweets i ((tid, txt, media) # js) a n h =
     (let a1 = (if i \<ge> length a
                then take n a @ replicate (grown (length a) - n) zeroTweet else a);
          n1 = (if i \<ge> n then i + 1 else n);
          (m, h1) = decodeStringArray media (MediaUrl (a1 ! i)) h;
          a2 = a1[i := \<lparr>TweetId = tid, Text = txt, MediaUrl = m\<rparr>]
      in decodeTweets (i + 1) js a2 n1 h1)"

definition sampleJson :: "(sampleTweet, heap) unmarshaller" where
  "sampleJson data r h =
     (case parseBody data of
        None \<Rightarrow> (Inl ''invalid character'', h)
      | Some (tweets, token) \<Rightarrow>
         (if tweets = []
          then (Inr \<lparr>Results = [], ResultsSpare = [], ContinuationToken = token\<rparr>, h)
          else (case decodeTweets 0 tweets (Results r @ ResultsSpare r) (length (Results r)) h of
                  (a, n, h') \<Rightarrow>
                    (Inr \<lparr>Results = take n a, ResultsSpare = drop n a,
                          ContinuationToken = token\<rparr>, h'))))"

definition sampleClient :: Client where
  "sampleClient = fst (New ''secret'' [])"

definition ok :: "bytes \<Rightarrow> string + response" where
  "ok data = Inr \<lparr>StatusCode = 200, Body = Inr data\<rparr>"

definition startWorld :: "(string + response) list \<Rightarrow> heap world" where
  "startWorld answers = \<lparr>script = answers, sent = [], taken = 0, memory = []\<rparr>"

section \<open>Evaluation on concrete inputs\<close>

lemmas sample_defs =
  sampleClient_def New_def withDefaults_def zero_options_def sampleLib_def startWorld_def ok_def
  getUserTweetsShape_def ready_def accepted_def buildUrlWithParameters_def
  buildUrl_def continuationParam_def newRequestCheck_def queryEscape_def escapeChar_def
  unreserved_def zeroResponse_def

section \<open>Construction: theorems\<close>

text \<open>
  C10. For every API key, \<open>New\<close> with no options returns no error and a client whose
  configuration is the three defaults: the host \<open>twitter154.p.rapidapi.com\<close>, the
  unlimited rate limiter and the default HTTP client.
\<close>

theorem New_no_options:
  "New k [] =
     (\<lparr>apiKey = k,
       options = Some \<lparr>host = ''twitter154.p.rapidapi.com'',
                       rateLimit = Some NewUnlimited,
                       httpClient = Some DefaultClient\<rparr>\<rparr>, None)"
  by (simp add: New_def withDefaults_def zero_options_def)

lemma applyOpts_append:
  "applyOpts (fs @ gs) opt =
     (case applyOpts fs opt of
        (opt', Some err) \<Rightarrow> (opt', Some err)
      | (opt', None) \<Rightarrow> applyOpts gs opt')"
  by (induction fs arbitrary: opt) (auto split: prod.splits option.splits)

text \<open>
  C6. Let the options \<open>pre\<close> all succeed and leave the options record \<open>o1\<close>. The next option
  \<open>f\<close> is applied to \<open>o1\<close>. When \<open>f\<close> fails with \<open>e\<close>, \<open>New\<close> returns the zero client and
  \<open>e\<close> wrapped as \<open>bad option\<close>, whatever options follow \<open>f\<close>; in particular \<open>WithHost\<close>
  with a host that \<open>http.NewRequest\<close> refuses ends the construction.
\<close>

theorem New_aborts_at_first_failing_option:
  assumes "applyOpts pre zero_options = (o1, None)"
  shows "(f o1 = (o2, None) \<longrightarrow> applyOpts (pre @ [f]) zero_options = (o2, None))
       \<and> (f o1 = (o2, Some e) \<longrightarrow>
            New k (pre @ f # rest) = (zero_Client, Some (Wrapf ''bad option'' e)))
       \<and> (http_NewRequest lib ''GET'' (''https://'' @ h) = Some msg \<longrightarrow>
            New k (pre @ WithHost lib h # rest) =
              (zero_Client,
               Some (Wrapf ''bad option'' (Wrapf ''invalid host'' (LibError msg)))))"
  using assms by (simp add: New_def applyOpts_append WithHost_def)

theorem New_aborts_at_first_failing_option_witness:
  "applyOpts [WithRateLimit (UserLimiter ''10 per second''), WithHost sampleLib ''example.com'']
     zero_options
     = (\<lparr>host = ''example.com'', rateLimit = Some (UserLimiter ''10 per second''),
         httpClient = None\<rparr>, None)
   \<and> New ''secret'' [WithRateLimit (UserLimiter ''10 per second''),
                     WithHost sampleLib (''bad'' @ [CHR 0x0A] @ ''host''),
                     WithHttpClient (UserClient ''proxy'')]
     = (zero_Client,
        Some (Wrapf ''bad option''
               (Wrapf ''invalid host'' (LibError ''invalid control character in URL''))))"
proof -
  let ?o1 = "\<lparr>host = [], rateLimit = Some (UserLimiter ''10 per second''), httpClient = None\<rparr>"
  let ?o2 = "\<lparr>host = ''example.com'', rateLimit = Some (UserLimiter ''10 per second''),
              httpClient = None\<rparr>"
  let ?e = "Wrapf ''invalid host'' (LibError ''invalid control character in URL'')"
  have pre: "applyOpts [WithRateLimit (UserLimiter ''10 per second'')] zero_options = (?o1, None)"
    by (simp add: WithRateLimit_def zero_options_def)
  have good: "WithHost sampleLib ''example.com'' ?o1 = (?o2, None)"
    by (simp add: WithHost_def sampleLib_def newRequestCheck_def)
  have bad: "WithHost sampleLib (''bad'' @ [CHR 0x0A] @ ''host'') ?o1 = (?o1, Some ?e)"
    by (simp add: WithHost_def sampleLib_def newRequestCheck_def)
  have refused: "http_NewRequest sampleLib ''GET'' (''https://'' @ ''bad'' @ [CHR 0x0A] @ ''host'')
                 = Some ''invalid control character in URL''"
    by (simp add: sampleLib_def newRequestCheck_def)
  note T = New_aborts_at_first_failing_option [OF pre]
  have a: "applyOpts ([WithRateLimit (UserLimiter ''10 per second'')] @
                      [WithHost sampleLib ''example.com'']) zero_options = (?o2, None)"
    using T [where f = "WithHost sampleLib ''example.com''", THEN conjunct1, rule_format, OF good] .
  have b: "New ''secret'' ([WithRateLimit (UserLimiter ''10 per second'')] @
                 WithHost sampleLib (''bad'' @ [CHR 0x0A] @ ''host'') #
                 [WithHttpClient (UserClient ''proxy'')])
           = (zero_Client, Some (Wrapf ''bad option'' ?e))"
    using T [where f = "WithHost sampleLib (''bad'' @ [CHR 0x0A] @ ''host'')",
        THEN conjunct2, THEN conjunct1, rule_format, OF bad] .
  have c: "New ''secret'' ([WithRateLimit (UserLimiter ''10 per second'')] @
                 WithHost sampleLib (''bad'' @ [CHR 0x0A] @ ''host'') #
                 [WithHttpClient (UserClient ''proxy'')])
           = (zero_Client, Some (Wrapf ''bad option'' ?e))"
    using T [THEN conjunct2, THEN conjunct2, rule_format, OF refused] .
  from a b c show ?thesis by simp
qed

text \<open>
  C7. When all options succeed and leave the record \<open>opt\<close>, the client holds \<open>opt\<close> with a
  default in each field that is still unset (an empty host, a nil rate limiter, a nil HTTP
  client) and the value of \<open>opt\<close> in every other field.
\<close>

theorem New_defaults_only_for_unset_fields:
  assumes "applyOpts opts zero_options = (opt, None)"
  shows "New k opts =
           (\<lparr>apiKey = k,
             options = Some
               \<lparr>host = (if host opt = [] then ''twitter154.p.rapidapi.com'' else host opt),
                rateLimit = Some (case rateLimit opt of None \<Rightarrow> NewUnlimited | Some rl \<Rightarrow> rl),
                httpClient = Some (case httpClient opt of None \<Rightarrow> DefaultClient
                                                         | Some hc \<Rightarrow> hc)\<rparr>\<rparr>, None)"
  using assms by (cases opt) (auto simp: New_def withDefaults_def Let_def split: option.splits)

theorem New_defaults_only_for_unset_fields_witness:
  "New ''secret'' [WithHost sampleLib ''example.com'', WithHttpClient (UserClient ''proxy'')] =
     (\<lparr>apiKey = ''secret'',
       options = Some \<lparr>host = ''example.com'', rateLimit = Some NewUnlimited,
                       httpClient = Some (UserClient ''proxy'')\<rparr>\<rparr>, None)"
  using New_defaults_only_for_unset_fields
    [of "[WithHost sampleLib ''example.com'', WithHttpClient (UserClient ''proxy'')]"
        "\<lparr>host = ''example.com'', rateLimit = None, httpClient = Some (UserClient ''proxy'')\<rparr>"
        "''secret''"]
  by (simp add: WithHost_def WithHttpClient_def zero_options_def sampleLib_def
        newRequestCheck_def)

section \<open>Request builder: theorems\<close>

lemma paramsLoop_later:
  "paramsLoop lib (Suc i) ps uri =
     uri @ concat (map (\<lambda>q. ''&'' @ key q @ ''='' @ url_QueryEscape lib (fmt_v (val q))) ps)"
  by (induction ps arbitrary: i uri) simp_all

lemma paramsLoop_query:
  "paramsLoop lib 0 ps uri = uri @ queryString (url_QueryEscape lib) ps"
  by (cases ps) (simp_all add: paramsLoop_later)

lemma buildUrlWithParameters_query:
  assumes "options c = Some opt"
  shows "buildUrl lib c path = Returns (''https://'' @ host opt @ ''/'' @ path_Join lib path)"
    and "buildUrlWithParameters lib c path params =
           Returns (''https://'' @ host opt @ ''/'' @ path_Join lib path @
                    queryString (url_QueryEscape lib) params)"
  using assms by (simp_all add: buildUrlWithParameters_def buildUrl_def paramsLoop_query)

lemma twitter154_paramsLoop_later:
  "twitter154_paramsLoop (Suc i) ps url =
     url @ concat (map (\<lambda>q. ''&'' @ key q @ ''='' @ fmt_v (val q)) ps)"
  by (induction ps arbitrary: i url) simp_all

lemma twitter154_buildUrlWithParameters_query:
  assumes "options c = Some opt"
  shows "twitter154_buildUrlWithParameters lib c path params =
           Returns (''https://'' @ host opt @ ''/'' @ path_Join lib path @
                    queryString (\<lambda>s. s) params)"
  using assms
  by (cases params)
     (simp_all add: twitter154_buildUrlWithParameters_def buildUrl_def
        twitter154_paramsLoop_later)

text \<open>
  C2. The builder of \<open>twitter154/api.go\<close> puts the value of a parameter into the URL as it
  is: a space, \<open>&\<close> and \<open>=\<close> in a value reach the query string, where the generic client
  escapes them.
\<close>

theorem twitter154_buildUrlWithParameters_unescaped:
  "twitter154_buildUrlWithParameters sampleLib sampleClient [''user'', ''details'']
     [\<lparr>key = ''username'', val = AnyString ''a b&c=d''\<rparr>, \<lparr>key = ''limit'', val = AnyInt 100\<rparr>]
   = Returns ''https://twitter154.p.rapidapi.com/user/details?username=a b&c=d&limit=100''
   \<and> buildUrlWithParameters sampleLib sampleClient [''user'', ''details'']
     [\<lparr>key = ''username'', val = AnyString ''a b&c=d''\<rparr>, \<lparr>key = ''limit'', val = AnyInt 100\<rparr>]
   = Returns ''https://twitter154.p.rapidapi.com/user/details?username=a+b%26c%3Dd&limit=100''"
  by (simp add: twitter154_buildUrlWithParameters_def sample_defs showNat.simps)

section \<open>Executor: theorems\<close>

text \<open>
  C5, as stated, fails: with the status 200 and a body that cannot be read the executor
  returns an error and no body.
\<close>

theorem do_read_failure_counterexample:
  "do sampleClient \<lparr>Method = ''GET'', URL = ''https://twitter154.p.rapidapi.com/user/details'',
                    Header = []\<rparr>
     (startWorld [Inr \<lparr>StatusCode = 200, Body = Inl ''unexpected EOF''\<rparr>])
   = Returns (([], Some (Wrapf ''read response body'' (LibError ''unexpected EOF''))),
       \<lparr>script = [],
        sent = [\<lparr>Method = ''GET'', URL = ''https://twitter154.p.rapidapi.com/user/details'',
                 Header = [(''X-RapidAPI-Key'', ''secret''),
                           (''X-RapidAPI-Host'', ''twitter154.p.rapidapi.com'')]\<rparr>],
        taken = 1, memory = []\<rparr>)"
  by (simp add: do_def sample_defs)

text \<open>
  C5, amended. When the transport answers with a response, the executor returns a status
  error exactly when the status code is outside 200..299, and this error carries the code
  and comes with no body; with a status inside 200..299 it returns the whole body when the
  body can be read, and a read error with no body when it cannot.
\<close>

theorem do_status_check:
  assumes "ready c" and "script w = Inr resp # rest"
  shows "\<exists>data err w'. do c req w = Returns ((data, err), w')
           \<and> script w' = rest \<and> length (sent w') = length (sent w) + 1
           \<and> ((\<exists>n. err = Some (StatusError n)) \<longleftrightarrow>
                  (StatusCode resp < 200 \<or> 299 < StatusCode resp))
           \<and> (StatusCode resp < 200 \<or> 299 < StatusCode resp \<longrightarrow>
                  data = [] \<and> err = Some (StatusError (StatusCode resp)))
           \<and> (200 \<le> StatusCode resp \<and> StatusCode resp \<le> 299 \<longrightarrow>
                  (\<forall>body. Body resp = Inr body \<longrightarrow> data = body \<and> err = None) \<and>
                  (\<forall>msg. Body resp = Inl msg \<longrightarrow>
                     data = [] \<and> err = Some (Wrapf ''read response body'' (LibError msg))))"
  using assms
  by (auto simp: do_def ready_def Let_def split: option.splits sum.splits)

theorem do_status_check_witness:
  "(\<exists>w'. do sampleClient \<lparr>Method = ''GET'', URL = ''https://twitter154.p.rapidapi.com/x'',
                           Header = []\<rparr>
            (startWorld [Inr \<lparr>StatusCode = 404, Body = Inr ''not found''\<rparr>])
          = Returns (([], Some (StatusError 404)), w'))
   \<and> (\<exists>w'. do sampleClient \<lparr>Method = ''GET'', URL = ''https://twitter154.p.rapidapi.com/x'',
                           Header = []\<rparr>
            (startWorld [Inr \<lparr>StatusCode = 299, Body = Inr ''{}''\<rparr>])
          = Returns ((''{}'', None), w'))"
  using do_status_check
    [of sampleClient "startWorld [Inr \<lparr>StatusCode = 404, Body = Inr ''not found''\<rparr>]"
        "\<lparr>StatusCode = 404, Body = Inr ''not found''\<rparr>" "[]"
        "\<lparr>Method = ''GET'', URL = ''https://twitter154.p.rapidapi.com/x'', Header = []\<rparr>"]
    do_status_check
    [of sampleClient "startWorld [Inr \<lparr>StatusCode = 299, Body = Inr ''{}''\<rparr>]"
        "\<lparr>StatusCode = 299, Body = Inr ''{}''\<rparr>" "[]"
        "\<lparr>Method = ''GET'', URL = ''https://twitter154.p.rapidapi.com/x'', Header = []\<rparr>"]
  by (auto simp: sample_defs)

section \<open>Paginator: lemmas\<close>

lemma get_delivers:
  assumes "ready c" and "accepted lib c pth prms"
    and "script w = Inr resp # rest"
    and "200 \<le> StatusCode resp" and "StatusCode resp < 300" and "Body resp = Inr d"
  shows "get lib c pth prms w =
           Returns ((d, None),
             w\<lparr>script := rest, sent := sent w @ [wire lib c pth prms], taken := Suc (taken w)\<rparr>)"
  using assms
  by (auto simp: get_def do_def ready_def accepted_def wire_def Let_def
                 buildUrlWithParameters_def buildUrl_def
           split: option.splits outcome.splits)

lemma pagesOf_Cons_D:
  assumes "pagesOf unm r h answers = p # ps"
  shows "\<exists>resp rest d. answers = Inr resp # rest \<and> 200 \<le> StatusCode resp \<and>
           StatusCode resp < 300 \<and> Body resp = Inr d \<and> unm d r h = (Inr (fst p), snd p) \<and>
           ps = pagesOf unm (fst p) (snd p) rest"
  using assms
  by (cases answers) (auto split: sum.splits if_splits prod.splits)

lemma pageLoop_run:
  assumes "ready c"
    and "k < length ((r, memory w) # pagesOf (Unmarshal R) r (memory w) (script w))"
    and "Result R (fst (((r, memory w) # pagesOf (Unmarshal R) r (memory w) (script w)) ! k)) = []"
    and "\<forall>j<k. Result R (fst (((r, memory w) # pagesOf (Unmarshal R) r (memory w) (script w)) ! j)) \<noteq> []"
    and "\<forall>j<k. accepted lib c pth
            (params @ [continuationParam (Token R
               (fst (((r, memory w) # pagesOf (Unmarshal R) r (memory w) (script w)) ! j)))])"
  shows "pageLoop R lib c pth (params @ [continuationParam (Token R r)]) r results w =
           Returns ((results @ concat (map (\<lambda>p. Result R (fst p))
                        (take k ((r, memory w) # pagesOf (Unmarshal R) r (memory w) (script w)))),
                     None),
             w\<lparr>script := drop k (script w),
               sent := sent w @
                 map (\<lambda>p. wire lib c pth (params @ [continuationParam (Token R (fst p))]))
                     (take k ((r, memory w) # pagesOf (Unmarshal R) r (memory w) (script w))),
               taken := taken w + k,
               memory := snd (((r, memory w) # pagesOf (Unmarshal R) r (memory w) (script w)) ! k)\<rparr>)"
  using assms
proof (induction k arbitrary: r results w)
  case 0
  then show ?case
    by (subst pageLoop.simps) simp
next
  case (Suc k)
  from Suc.prems(2) obtain p ps where ps: "pagesOf (Unmarshal R) r (memory w) (script w) = p # ps"
    by (cases "pagesOf (Unmarshal R) r (memory w) (script w)") auto
  obtain r' h' where p: "p = (r', h')" by (cases p)
  from pagesOf_Cons_D [OF ps] p obtain resp rest d where a: "script w = Inr resp # rest"
      "200 \<le> StatusCode resp" "StatusCode resp < 300" "Body resp = Inr d"
      "Unmarshal R d r (memory w) = (Inr r', h')"
      "ps = pagesOf (Unmarshal R) r' h' rest"
    by auto
  from Suc.prems(4) have ne: "Result R r \<noteq> []" by auto
  from Suc.prems(5) have acc: "accepted lib c pth (params @ [continuationParam (Token R r)])"
    by auto
  let ?w1 = "w\<lparr>script := rest,
               sent := sent w @ [wire lib c pth (params @ [continuationParam (Token R r)])],
               taken := Suc (taken w)\<rparr>"
  let ?w2 = "?w1\<lparr>memory := h'\<rparr>"
  have g: "get lib c pth (params @ [continuationParam (Token R r)]) w = Returns ((d, None), ?w1)"
    using get_delivers [OF Suc.prems(1) acc a(1) a(2) a(3) a(4)] .
  have step: "pageLoop R lib c pth (params @ [continuationParam (Token R r)]) r results w =
              pageLoop R lib c pth (params @ [continuationParam (Token R r')]) r'
                (results @ Result R r) ?w2"
    by (subst pageLoop.simps) (simp add: g a(5) ne, simp add: continuationParam_def)
  have sw2: "script ?w2 = rest" "memory ?w2 = h'" by simp_all
  have IH: "pageLoop R lib c pth (params @ [continuationParam (Token R r')]) r'
                (results @ Result R r) ?w2 =
           Returns (((results @ Result R r) @ concat (map (\<lambda>p. Result R (fst p))
                        (take k ((r', memory ?w2) # pagesOf (Unmarshal R) r' (memory ?w2) (script ?w2)))),
                     None),
             ?w2\<lparr>script := drop k (script ?w2),
               sent := sent ?w2 @
                 map (\<lambda>p. wire lib c pth (params @ [continuationParam (Token R (fst p))]))
                     (take k ((r', memory ?w2) # pagesOf (Unmarshal R) r' (memory ?w2) (script ?w2))),
               taken := taken ?w2 + k,
               memory := snd (((r', memory ?w2) # pagesOf (Unmarshal R) r' (memory ?w2) (script ?w2)) ! k)\<rparr>)"
  proof (rule Suc.IH [OF Suc.prems(1)])
    show "k < length ((r', memory ?w2) # pagesOf (Unmarshal R) r' (memory ?w2) (script ?w2))"
      using Suc.prems(2) ps p a(6) by simp
    show "Result R (fst (((r', memory ?w2) # pagesOf (Unmarshal R) r' (memory ?w2) (script ?w2)) ! k)) = []"
      using Suc.prems(3) ps p a(6) by simp
    show "\<forall>j<k. Result R (fst (((r', memory ?w2) # pagesOf (Unmarshal R) r' (memory ?w2) (script ?w2)) ! j)) \<noteq> []"
      using Suc.prems(4) ps p a(6) by auto
    show "\<forall>j<k. accepted lib c pth
            (params @ [continuationParam (Token R
               (fst (((r', memory ?w2) # pagesOf (Unmarshal R) r' (memory ?w2) (script ?w2)) ! j)))])"
      using Suc.prems(5) ps p a(6) by auto
  qed
  show ?case
    unfolding step IH using ps p a(1) a(6) by simp
qed

lemma getResultPaginated_run:
  assumes "ready c"
    and "k < length (pagesOf (Unmarshal R) (zero R) (memory w) (script w))"
    and "Result R (fst (pagesOf (Unmarshal R) (zero R) (memory w) (script w) ! k)) = []"
    and "\<forall>j<k. Result R (fst (pagesOf (Unmarshal R) (zero R) (memory w) (script w) ! j)) \<noteq> []"
    and "accepted lib c path params"
    and "\<forall>j<k. accepted lib c (path @ [''continuation''])
            (params @ [continuationParam (Token R
               (fst (pagesOf (Unmarshal R) (zero R) (memory w) (script w) ! j)))])"
  shows "getResultPaginated R lib c path params w =
           Returns ((concat (map (\<lambda>p. Result R (fst p))
                       (take k (pagesOf (Unmarshal R) (zero R) (memory w) (script w)))),
                     None),
             w\<lparr>script := drop (Suc k) (script w),
               sent := sent w @ wire lib c path params #
                         map (\<lambda>p. wire lib c (path @ [''continuation''])
                                    (params @ [continuationParam (Token R (fst p))]))
                             (take k (pagesOf (Unmarshal R) (zero R) (memory w) (script w))),
               taken := taken w + Suc k,
               memory := snd (pagesOf (Unmarshal R) (zero R) (memory w) (script w) ! k)\<rparr>)"
proof -
  from assms(2) obtain p ps
    where ps: "pagesOf (Unmarshal R) (zero R) (memory w) (script w) = p # ps"
    by (cases "pagesOf (Unmarshal R) (zero R) (memory w) (script w)") auto
  obtain r h where p: "p = (r, h)" by (cases p)
  from pagesOf_Cons_D [OF ps] p obtain resp rest d where a: "script w = Inr resp # rest"
      "200 \<le> StatusCode resp" "StatusCode resp < 300" "Body resp = Inr d"
      "Unmarshal R d (zero R) (memory w) = (Inr r, h)" "ps = pagesOf (Unmarshal R) r h rest"
    by auto
  let ?w1 = "w\<lparr>script := rest, sent := sent w @ [wire lib c path params],
               taken := Suc (taken w)\<rparr>"
  let ?w2 = "?w1\<lparr>memory := h\<rparr>"
  have g: "get lib c path params w = Returns ((d, None), ?w1)"
    using get_delivers [OF assms(1) assms(5) a(1) a(2) a(3) a(4)] .
  have start: "getResultPaginated R lib c path params w =
               pageLoop R lib c (path @ [''continuation''])
                 (params @ [continuationParam (Token R r)]) r [] ?w2"
    by (simp add: getResultPaginated_def g a(5) continuationParam_def)
  have run: "pageLoop R lib c (path @ [''continuation''])
                 (params @ [continuationParam (Token R r)]) r [] ?w2 =
             Returns (([] @ concat (map (\<lambda>p. Result R (fst p))
                        (take k ((r, memory ?w2) # pagesOf (Unmarshal R) r (memory ?w2) (script ?w2)))),
                       None),
               ?w2\<lparr>script := drop k (script ?w2),
                 sent := sent ?w2 @
                   map (\<lambda>p. wire lib c (path @ [''continuation''])
                              (params @ [continuationParam (Token R (fst p))]))
                       (take k ((r, memory ?w2) # pagesOf (Unmarshal R) r (memory ?w2) (script ?w2))),
                 taken := taken ?w2 + k,
                 memory := snd (((r, memory ?w2) # pagesOf (Unmarshal R) r (memory ?w2) (script ?w2)) ! k)\<rparr>)"
  proof (rule pageLoop_run [OF assms(1)])
    show "k < length ((r, memory ?w2) # pagesOf (Unmarshal R) r (memory ?w2) (script ?w2))"
      using assms(2) ps p a(6) by simp
    show "Result R (fst (((r, memory ?w2) # pagesOf (Unmarshal R) r (memory ?w2) (script ?w2)) ! k)) = []"
      using assms(3) ps p a(6) by simp
    show "\<forall>j<k. Result R (fst (((r, memory ?w2) # pagesOf (Unmarshal R) r (memory ?w2) (script ?w2)) ! j)) \<noteq> []"
      using assms(4) ps p a(6) by simp
    show "\<forall>j<k. accepted lib c (path @ [''continuation''])
            (params @ [continuationParam (Token R
               (fst (((r, memory ?w2) # pagesOf (Unmarshal R) r (memory ?w2) (script ?w2)) ! j)))])"
      using assms(6) ps p a(6) by simp
  qed
  show ?thesis
    unfolding start run using ps p a(1) a(6) by simp
qed

lemma get_Returns_D:
  assumes "get lib c pth prms w = Returns ((d, err), w1)"
  shows "(err = None \<and>
          (\<exists>resp rest. script w = Inr resp # rest \<and> 200 \<le> StatusCode resp \<and>
             StatusCode resp < 300 \<and> Body resp = Inr d \<and>
             w1 = w\<lparr>script := rest, sent := sent w @ [wire lib c pth prms],
                     taken := Suc (taken w)\<rparr>))
       \<or> (err \<noteq> None \<and> d = [] \<and>
          (w1 = w \<or>
           (\<exists>a rest. script w = a # rest \<and>
              w1 = w\<lparr>script := rest, sent := sent w @ [wire lib c pth prms],
                      taken := Suc (taken w)\<rparr>)))"
  using assms
  by (auto simp: get_def do_def wire_def Let_def buildUrlWithParameters_def buildUrl_def
           split: option.splits list.splits sum.splits if_splits)

lemma get_ok_D:
  assumes "get lib c pth prms w = Returns ((d, None), w1)"
  shows "\<exists>resp rest. script w = Inr resp # rest \<and> 200 \<le> StatusCode resp \<and>
             StatusCode resp < 300 \<and> Body resp = Inr d \<and>
             w1 = w\<lparr>script := rest, sent := sent w @ [wire lib c pth prms],
                     taken := Suc (taken w)\<rparr>"
  using get_Returns_D [OF assms] by simp


lemma get_error_foreign:
  assumes "get lib c pth prms w = Returns ((d, Some e), w1)"
  shows "\<not> errors_Is e ErrNotImplemented"
  using assms
  by (auto simp: get_def do_def Let_def buildUrlWithParameters_def buildUrl_def
           split: option.splits list.splits sum.splits if_splits)

lemma get_ready:
  assumes "ready c" and "script w = a # rest"
  shows "\<exists>d err w1. get lib c pth prms w = Returns ((d, err), w1)"
  using assms
  by (auto simp: get_def do_def ready_def Let_def buildUrlWithParameters_def buildUrl_def
           split: option.splits sum.splits)

lemma pageLoop_Returns:
  assumes "pageLoop R lib c pth prms r results w = Returns ((res, err), w')"
  shows "(err \<noteq> None \<longrightarrow> res = []) \<and>
         (err = None \<longrightarrow>
            (\<exists>p \<in> set ((r, memory w) # pagesOf (Unmarshal R) r (memory w) (script w)).
                Result R (fst p) = []) \<and>
            res = results @ concat (map (\<lambda>p. Result R (fst p))
                    (takeWhile (\<lambda>p. Result R (fst p) \<noteq> [])
                       ((r, memory w) # pagesOf (Unmarshal R) r (memory w) (script w)))))"
  using assms
proof (induction R lib c pth prms r results w rule: pageLoop.induct)
  case (1 R lib c pth prms r results w)
  show ?case
  proof (cases "Result R r = []")
    case True
    with "1.prems" show ?thesis
      by (subst (asm) pageLoop.simps) auto
  next
    case ne: False
    show ?thesis
    proof (cases "get lib c pth prms w")
      case Panics
      with "1.prems" ne show ?thesis by (subst (asm) pageLoop.simps) simp
    next
      case Blocks
      with "1.prems" ne show ?thesis by (subst (asm) pageLoop.simps) simp
    next
      case (Returns x)
      obtain d e w1 where x: "x = ((d, e), w1)" by (metis surj_pair)
      show ?thesis
      proof (cases e)
        case (Some err')
        with "1.prems" ne Returns x show ?thesis
          by (subst (asm) pageLoop.simps) auto
      next
        case None
        note g = Returns [unfolded x None]
        from get_ok_D [OF g] obtain resp rest where a: "script w = Inr resp # rest"
          "200 \<le> StatusCode resp" "StatusCode resp < 300" "Body resp = Inr d"
          "script w1 = rest" "memory w1 = memory w"
          by auto
        obtain u h where U: "Unmarshal R d r (memory w1) = (u, h)" by (metis surj_pair)
        show ?thesis
        proof (cases u)
          case (Inl msg)
          with "1.prems" ne g U show ?thesis
            by (subst (asm) pageLoop.simps) auto
        next
          case (Inr r')
          show ?thesis
          proof (cases "prms = []")
            case True
            with "1.prems" ne g U Inr show ?thesis
              by (subst (asm) pageLoop.simps) simp
          next
            case False
            have rec: "pageLoop R lib c pth
                (prms[length prms - 1 := (prms ! (length prms - 1))\<lparr>val := AnyString (Token R r')\<rparr>])
                r' (results @ Result R r) (w1\<lparr>memory := h\<rparr>) = Returns ((res, err), w')"
              using "1.prems" ne g U Inr False by (subst (asm) pageLoop.simps) simp
            have pg: "pagesOf (Unmarshal R) r (memory w) (script w) =
                      (r', h) # pagesOf (Unmarshal R) r' h (script w1)"
              using a U Inr by simp
            from "1.IH" [OF _ g refl refl refl U [symmetric] Inr False rec] ne
            show ?thesis
              using ne pg by simp
          qed
        qed
      qed
    qed
  qed
qed


lemma pageLoop_error_foreign:
  assumes "pageLoop R lib c pth prms r results w = Returns ((res, Some e), w')"
  shows "\<not> errors_Is e ErrNotImplemented"
  using assms
proof (induction R lib c pth prms r results w rule: pageLoop.induct)
  case (1 R lib c pth prms r results w)
  show ?case
  proof (cases "Result R r = []")
    case True
    with "1.prems" show ?thesis
      by (subst (asm) pageLoop.simps) auto
  next
    case ne: False
    show ?thesis
    proof (cases "get lib c pth prms w")
      case Panics
      with "1.prems" ne show ?thesis by (subst (asm) pageLoop.simps) simp
    next
      case Blocks
      with "1.prems" ne show ?thesis by (subst (asm) pageLoop.simps) simp
    next
      case (Returns x)
      obtain d e' w1 where x: "x = ((d, e'), w1)" by (metis surj_pair)
      show ?thesis
      proof (cases e')
        case (Some err')
        have "\<not> errors_Is err' ErrNotImplemented"
          using get_error_foreign Returns x Some by blast
        moreover have "e = Wrapf ''get'' err'"
          using "1.prems" ne Returns x Some by (subst (asm) pageLoop.simps) auto
        ultimately show ?thesis by simp
      next
        case None
        note g = Returns [unfolded x None]
        obtain u h where U: "Unmarshal R d r (memory w1) = (u, h)" by (metis surj_pair)
        show ?thesis
        proof (cases u)
          case (Inl msg)
          with "1.prems" ne g U show ?thesis
            by (subst (asm) pageLoop.simps) auto
        next
          case (Inr r')
          show ?thesis
          proof (cases "prms = []")
            case True
            with "1.prems" ne g U Inr show ?thesis
              by (subst (asm) pageLoop.simps) simp
          next
            case False
            have rec: "pageLoop R lib c pth
                (prms[length prms - 1 := (prms ! (length prms - 1))\<lparr>val := AnyString (Token R r')\<rparr>])
                r' (results @ Result R r) (w1\<lparr>memory := h\<rparr>) = Returns ((res, Some e), w')"
              using "1.prems" ne g U Inr False by (subst (asm) pageLoop.simps) simp
            from "1.IH" [OF _ g refl refl refl U [symmetric] Inr False rec] ne
            show ?thesis by simp
          qed
        qed
      qed
    qed
  qed
qed

lemma pageLoop_fails:
  assumes "ready c" and "prms \<noteq> []"
    and "\<forall>p \<in> set ((r, memory w) # pagesOf (Unmarshal R) r (memory w) (script w)).
           Result R (fst p) \<noteq> []"
    and "length (pagesOf (Unmarshal R) r (memory w) (script w)) < length (script w)"
  shows "\<exists>e w'. pageLoop R lib c pth prms r results w = Returns (([], Some e), w')"
  using assms
proof (induction R lib c pth prms r results w rule: pageLoop.induct)
  case (1 R lib c pth prms r results w)
  from "1.prems"(3) have ne: "Result R r \<noteq> []" by simp
  from "1.prems"(4) obtain a rest where sc: "script w = a # rest"
    by (cases "script w") auto
  from get_ready [OF "1.prems"(1) sc] obtain d err w1
    where g: "get lib c pth prms w = Returns ((d, err), w1)" by blast
  show ?case
  proof (cases err)
    case (Some e)
    with g ne show ?thesis by (subst pageLoop.simps) simp
  next
    case None
    note g = g [unfolded None]
    from get_ok_D [OF g] sc obtain resp where a: "a = Inr resp" "200 \<le> StatusCode resp"
      "StatusCode resp < 300" "Body resp = Inr d" "script w1 = rest" "memory w1 = memory w"
      by auto
    obtain u h where U: "Unmarshal R d r (memory w1) = (u, h)" by (metis surj_pair)
    show ?thesis
    proof (cases u)
      case (Inl msg)
      with g ne U show ?thesis by (subst pageLoop.simps) simp
    next
      case (Inr r')
      have pg: "pagesOf (Unmarshal R) r (memory w) (script w) =
                (r', h) # pagesOf (Unmarshal R) r' h (script w1)"
        unfolding sc using a U Inr by simp
      have step: "pageLoop R lib c pth prms r results w =
            pageLoop R lib c pth
              (prms[length prms - 1 := (prms ! (length prms - 1))\<lparr>val := AnyString (Token R r')\<rparr>])
              r' (results @ Result R r) (w1\<lparr>memory := h\<rparr>)"
        using g ne U Inr "1.prems"(2) by (subst pageLoop.simps) simp
      have "\<exists>e w'. pageLoop R lib c pth
              (prms[length prms - 1 := (prms ! (length prms - 1))\<lparr>val := AnyString (Token R r')\<rparr>])
              r' (results @ Result R r) (w1\<lparr>memory := h\<rparr>) = Returns (([], Some e), w')"
      proof (rule "1.IH" [OF _ g refl refl refl U [symmetric] Inr "1.prems"(2) "1.prems"(1)])
        show "length (Result R r) \<noteq> 0" using ne by simp
        show "prms[length prms - 1 := (prms ! (length prms - 1))\<lparr>val := AnyString (Token R r')\<rparr>] \<noteq> []"
          using "1.prems"(2) by simp
        show "\<forall>p\<in>set ((r', memory (w1\<lparr>memory := h\<rparr>)) #
                 pagesOf (Unmarshal R) r' (memory (w1\<lparr>memory := h\<rparr>)) (script (w1\<lparr>memory := h\<rparr>))).
                Result R (fst p) \<noteq> []"
          using "1.prems"(3) pg by simp
        show "length (pagesOf (Unmarshal R) r' (memory (w1\<lparr>memory := h\<rparr>)) (script (w1\<lparr>memory := h\<rparr>)))
              < length (script (w1\<lparr>memory := h\<rparr>))"
          using "1.prems"(4) pg sc a(5) by simp
      qed
      then show ?thesis unfolding step .
    qed
  qed
qed


lemma getResultPaginated_error_foreign:
  assumes "getResultPaginated R lib c path params w = Returns ((res, Some e), w')"
  shows "\<not> errors_Is e ErrNotImplemented"
proof (cases "get lib c path params w")
  case Panics
  with assms show ?thesis by (simp add: getResultPaginated_def)
next
  case Blocks
  with assms show ?thesis by (simp add: getResultPaginated_def)
next
  case (Returns x)
  obtain d e' w1 where x: "x = ((d, e'), w1)" by (metis surj_pair)
  show ?thesis
  proof (cases e')
    case (Some err')
    have "\<not> errors_Is err' ErrNotImplemented"
      using get_error_foreign Returns x Some by blast
    moreover have "e = Wrapf ''get'' err'"
      using assms Returns x Some by (auto simp: getResultPaginated_def)
    ultimately show ?thesis by simp
  next
    case None
    note g = Returns [unfolded x None]
    obtain u h where U: "Unmarshal R d (zero R) (memory w1) = (u, h)" by (metis surj_pair)
    show ?thesis
    proof (cases u)
      case (Inl msg)
      with assms g U show ?thesis by (auto simp: getResultPaginated_def)
    next
      case (Inr r)
      with assms g U show ?thesis
        by (auto simp: getResultPaginated_def dest: pageLoop_error_foreign)
    qed
  qed
qed

lemma getResult_error_foreign:
  assumes "getResult R lib c path params w = Returns ((res, Some e), w')"
  shows "\<not> errors_Is e ErrNotImplemented"
proof (cases "get lib c path params w")
  case Panics
  with assms show ?thesis by (simp add: getResult_def)
next
  case Blocks
  with assms show ?thesis by (simp add: getResult_def)
next
  case (Returns x)
  obtain d e' w1 where x: "x = ((d, e'), w1)" by (metis surj_pair)
  show ?thesis
  proof (cases e')
    case (Some err')
    have "\<not> errors_Is err' ErrNotImplemented"
      using get_error_foreign Returns x Some by blast
    moreover have "e = Wrapf ''get'' err'"
      using assms Returns x Some by (auto simp: getResult_def)
    ultimately show ?thesis by simp
  next
    case None
    with assms Returns x show ?thesis
      by (auto simp: getResult_def split: sum.splits prod.splits)
  qed
qed

lemma getResultPaginated_Returns:
  assumes "getResultPaginated R lib c path params w = Returns ((res, err), w')"
  shows "(err \<noteq> None \<longrightarrow> res = []) \<and>
         (err = None \<longrightarrow>
            (\<exists>p \<in> set (pagesOf (Unmarshal R) (zero R) (memory w) (script w)).
                Result R (fst p) = []) \<and>
            res = concat (map (\<lambda>p. Result R (fst p))
                    (takeWhile (\<lambda>p. Result R (fst p) \<noteq> [])
                       (pagesOf (Unmarshal R) (zero R) (memory w) (script w)))))"
proof (cases "get lib c path params w")
  case Panics
  with assms show ?thesis by (simp add: getResultPaginated_def)
next
  case Blocks
  with assms show ?thesis by (simp add: getResultPaginated_def)
next
  case (Returns x)
  obtain d e' w1 where x: "x = ((d, e'), w1)" by (metis surj_pair)
  show ?thesis
  proof (cases e')
    case (Some err')
    with assms Returns x show ?thesis by (auto simp: getResultPaginated_def)
  next
    case None
    note g = Returns [unfolded x None]
    from get_ok_D [OF g] obtain resp rest where a: "script w = Inr resp # rest"
      "200 \<le> StatusCode resp" "StatusCode resp < 300" "Body resp = Inr d"
      "script w1 = rest" "memory w1 = memory w"
      by auto
    obtain u h where U: "Unmarshal R d (zero R) (memory w1) = (u, h)" by (metis surj_pair)
    show ?thesis
    proof (cases u)
      case (Inl msg)
      with assms g U show ?thesis by (auto simp: getResultPaginated_def)
    next
      case (Inr r)
      have loop: "pageLoop R lib c (path @ [''continuation''])
                    (params @ [continuationParam (Token R r)]) r [] (w1\<lparr>memory := h\<rparr>)
                  = Returns ((res, err), w')"
        using assms g U Inr by (simp add: getResultPaginated_def continuationParam_def)
      have pg: "pagesOf (Unmarshal R) (zero R) (memory w) (script w) =
                (r, h) # pagesOf (Unmarshal R) r h (script w1)"
        using a U Inr by simp
      from pageLoop_Returns [OF loop] show ?thesis
        unfolding pg by simp
    qed
  qed
qed

lemma getResultPaginated_fails:
  assumes "ready c"
    and "\<forall>p \<in> set (pagesOf (Unmarshal R) (zero R) (memory w) (script w)). Result R (fst p) \<noteq> []"
    and "length (pagesOf (Unmarshal R) (zero R) (memory w) (script w)) < length (script w)"
  shows "\<exists>e w'. getResultPaginated R lib c path params w = Returns (([], Some e), w')"
proof -
  from assms(3) obtain a rest where sc: "script w = a # rest"
    by (cases "script w") auto
  from get_ready [OF assms(1) sc] obtain d err w1
    where g: "get lib c path params w = Returns ((d, err), w1)" by blast
  show ?thesis
  proof (cases err)
    case (Some e)
    with g show ?thesis by (simp add: getResultPaginated_def)
  next
    case None
    note g = g [unfolded None]
    from get_ok_D [OF g] sc obtain resp where a: "a = Inr resp" "200 \<le> StatusCode resp"
      "StatusCode resp < 300" "Body resp = Inr d" "script w1 = rest" "memory w1 = memory w"
      by auto
    obtain u h where U: "Unmarshal R d (zero R) (memory w1) = (u, h)" by (metis surj_pair)
    show ?thesis
    proof (cases u)
      case (Inl msg)
      with g U show ?thesis by (simp add: getResultPaginated_def)
    next
      case (Inr r)
      have pg: "pagesOf (Unmarshal R) (zero R) (memory w) (script w) =
                (r, h) # pagesOf (Unmarshal R) r h (script w1)"
        unfolding sc using a U Inr by simp
      have start: "getResultPaginated R lib c path params w =
               pageLoop R lib c (path @ [''continuation''])
                 (params @ [continuationParam (Token R r)]) r [] (w1\<lparr>memory := h\<rparr>)"
        by (simp add: getResultPaginated_def g U Inr continuationParam_def)
      have "\<exists>e w'. pageLoop R lib c (path @ [''continuation''])
                 (params @ [continuationParam (Token R r)]) r [] (w1\<lparr>memory := h\<rparr>)
               = Returns (([], Some e), w')"
      proof (rule pageLoop_fails [OF assms(1)])
        show "params @ [continuationParam (Token R r)] \<noteq> []" by simp
        show "\<forall>p\<in>set ((r, memory (w1\<lparr>memory := h\<rparr>)) #
                 pagesOf (Unmarshal R) r (memory (w1\<lparr>memory := h\<rparr>)) (script (w1\<lparr>memory := h\<rparr>))).
                Result R (fst p) \<noteq> []"
          using assms(2) pg by simp
        show "length (pagesOf (Unmarshal R) r (memory (w1\<lparr>memory := h\<rparr>)) (script (w1\<lparr>memory := h\<rparr>)))
              < length (script (w1\<lparr>memory := h\<rparr>))"
          using assms(3) pg sc a(5) by simp
      qed
      then show ?thesis unfolding start .
    qed
  qed
qed

lemma get_sends:
  assumes "ready c" and "accepted lib c pth prms" and "script w = a # rest"
  shows "\<exists>d err. get lib c pth prms w =
           Returns ((d, err),
             w\<lparr>script := rest, sent := sent w @ [wire lib c pth prms], taken := Suc (taken w)\<rparr>)
         \<and> (err = None \<longrightarrow>
              (\<exists>resp. a = Inr resp \<and> 200 \<le> StatusCode resp \<and> StatusCode resp < 300 \<and>
                      Body resp = Inr d))"
  using assms
  by (auto simp: get_def do_def ready_def accepted_def wire_def Let_def
                 buildUrlWithParameters_def buildUrl_def
           split: option.splits outcome.splits sum.splits)

lemma pagesOf_Nil_D:
  assumes "pagesOf unm r h (Inr resp # rest) = []"
    and "200 \<le> StatusCode resp" and "StatusCode resp < 300" and "Body resp = Inr d"
  shows "\<exists>msg. fst (unm d r h) = Inl msg"
  using assms by (auto split: sum.splits prod.splits)

lemma pageLoop_fails_run:
  assumes "ready c"
    and "length (pagesOf (Unmarshal R) r (memory w) (script w)) = n"
    and "n < length (script w)"
    and "\<forall>p \<in> set ((r, memory w) # pagesOf (Unmarshal R) r (memory w) (script w)).
           Result R (fst p) \<noteq> []"
    and "\<forall>p \<in> set ((r, memory w) # pagesOf (Unmarshal R) r (memory w) (script w)).
           accepted lib c pth (params @ [continuationParam (Token R (fst p))])"
  shows "\<exists>e w'. pageLoop R lib c pth (params @ [continuationParam (Token R r)]) r results w =
                  Returns (([], Some e), w')
               \<and> length (sent w') = length (sent w) + (n + 1)
               \<and> script w' = drop (n + 1) (script w)
               \<and> taken w' = taken w + (n + 1)"
  using assms
proof (induction n arbitrary: r results w)
  case 0
  from "0.prems"(3) obtain a rest where sc: "script w = a # rest"
    by (cases "script w") auto
  from "0.prems"(4) have ne: "Result R r \<noteq> []" by simp
  from "0.prems"(5) have acc: "accepted lib c pth (params @ [continuationParam (Token R r)])"
    by simp
  let ?w1 = "w\<lparr>script := rest,
               sent := sent w @ [wire lib c pth (params @ [continuationParam (Token R r)])],
               taken := Suc (taken w)\<rparr>"
  from get_sends [OF "0.prems"(1) acc sc] obtain d err
    where g: "get lib c pth (params @ [continuationParam (Token R r)]) w = Returns ((d, err), ?w1)"
      and dl: "err = None \<longrightarrow> (\<exists>resp. a = Inr resp \<and> 200 \<le> StatusCode resp \<and>
                 StatusCode resp < 300 \<and> Body resp = Inr d)"
    by blast
  show ?case
  proof (cases err)
    case (Some e)
    with g ne sc show ?thesis by (subst pageLoop.simps) simp
  next
    case None
    with dl obtain resp where a: "a = Inr resp" "200 \<le> StatusCode resp"
      "StatusCode resp < 300" "Body resp = Inr d" by blast
    have "pagesOf (Unmarshal R) r (memory w) (Inr resp # rest) = []"
      using "0.prems"(2) sc a(1) by simp
    from pagesOf_Nil_D [OF this a(2) a(3) a(4)] obtain msg h
      where U: "Unmarshal R d r (memory w) = (Inl msg, h)"
      by (metis prod.collapse)
    show ?thesis
      using g ne sc None U by (subst pageLoop.simps) simp
  qed
next
  case (Suc n)
  from Suc.prems(2) obtain p ps where ps: "pagesOf (Unmarshal R) r (memory w) (script w) = p # ps"
    by (cases "pagesOf (Unmarshal R) r (memory w) (script w)") auto
  obtain r' h' where p: "p = (r', h')" by (cases p)
  from pagesOf_Cons_D [OF ps] p obtain resp rest d where a: "script w = Inr resp # rest"
      "200 \<le> StatusCode resp" "StatusCode resp < 300" "Body resp = Inr d"
      "Unmarshal R d r (memory w) = (Inr r', h')"
      "ps = pagesOf (Unmarshal R) r' h' rest"
    by auto
  from Suc.prems(4) have ne: "Result R r \<noteq> []" by simp
  from Suc.prems(5) have acc: "accepted lib c pth (params @ [continuationParam (Token R r)])"
    by simp
  let ?w1 = "w\<lparr>script := rest,
               sent := sent w @ [wire lib c pth (params @ [continuationParam (Token R r)])],
               taken := Suc (taken w)\<rparr>"
  let ?w2 = "?w1\<lparr>memory := h'\<rparr>"
  have g: "get lib c pth (params @ [continuationParam (Token R r)]) w = Returns ((d, None), ?w1)"
    using get_delivers [OF Suc.prems(1) acc a(1) a(2) a(3) a(4)] .
  have step: "pageLoop R lib c pth (params @ [continuationParam (Token R r)]) r results w =
              pageLoop R lib c pth (params @ [continuationParam (Token R r')]) r'
                (results @ Result R r) ?w2"
    by (subst pageLoop.simps) (simp add: g a(5) ne, simp add: continuationParam_def)
  have "\<exists>e w'. pageLoop R lib c pth (params @ [continuationParam (Token R r')]) r'
                (results @ Result R r) ?w2 = Returns (([], Some e), w')
               \<and> length (sent w') = length (sent ?w2) + (n + 1)
               \<and> script w' = drop (n + 1) (script ?w2)
               \<and> taken w' = taken ?w2 + (n + 1)"
  proof (rule Suc.IH [OF Suc.prems(1)])
    show "length (pagesOf (Unmarshal R) r' (memory ?w2) (script ?w2)) = n"
      using Suc.prems(2) ps a(6) by simp
    show "n < length (script ?w2)"
      using Suc.prems(3) a(1) by simp
    show "\<forall>p\<in>set ((r', memory ?w2) # pagesOf (Unmarshal R) r' (memory ?w2) (script ?w2)).
            Result R (fst p) \<noteq> []"
      using Suc.prems(4) ps p a(6) by simp
    show "\<forall>p\<in>set ((r', memory ?w2) # pagesOf (Unmarshal R) r' (memory ?w2) (script ?w2)).
            accepted lib c pth (params @ [continuationParam (Token R (fst p))])"
      using Suc.prems(5) ps p a(6) by simp
  qed
  then show ?case
    unfolding step using a(1) by auto
qed

lemma getResultPaginated_fails_run:
  assumes "ready c"
    and "n = length (pagesOf (Unmarshal R) (zero R) (memory w) (script w))"
    and "n < length (script w)"
    and "\<forall>p \<in> set (pagesOf (Unmarshal R) (zero R) (memory w) (script w)). Result R (fst p) \<noteq> []"
    and "accepted lib c path params"
    and "\<forall>p \<in> set (pagesOf (Unmarshal R) (zero R) (memory w) (script w)).
           accepted lib c (path @ [''continuation''])
             (params @ [continuationParam (Token R (fst p))])"
  shows "\<exists>e w'. getResultPaginated R lib c path params w = Returns (([], Some e), w')
               \<and> length (sent w') = length (sent w) + (n + 1)
               \<and> script w' = drop (n + 1) (script w)
               \<and> taken w' = taken w + (n + 1)"
proof (cases n)
  case 0
  from assms(3) obtain a rest where sc: "script w = a # rest"
    by (cases "script w") auto
  let ?w1 = "w\<lparr>script := rest, sent := sent w @ [wire lib c path params],
               taken := Suc (taken w)\<rparr>"
  from get_sends [OF assms(1) assms(5) sc] obtain d err
    where g: "get lib c path params w = Returns ((d, err), ?w1)"
      and dl: "err = None \<longrightarrow> (\<exists>resp. a = Inr resp \<and> 200 \<le> StatusCode resp \<and>
                 StatusCode resp < 300 \<and> Body resp = Inr d)"
    by blast
  show ?thesis
  proof (cases err)
    case (Some e)
    with g sc 0 show ?thesis by (simp add: getResultPaginated_def)
  next
    case None
    with dl obtain resp where a: "a = Inr resp" "200 \<le> StatusCode resp"
      "StatusCode resp < 300" "Body resp = Inr d" by blast
    have "pagesOf (Unmarshal R) (zero R) (memory w) (Inr resp # rest) = []"
      using assms(2) 0 sc a(1) by simp
    from pagesOf_Nil_D [OF this a(2) a(3) a(4)] obtain msg h
      where U: "Unmarshal R d (zero R) (memory w) = (Inl msg, h)"
      by (metis prod.collapse)
    show ?thesis
      using g sc None U 0 by (simp add: getResultPaginated_def)
  qed
next
  case (Suc m)
  with assms(2) obtain p ps
    where ps: "pagesOf (Unmarshal R) (zero R) (memory w) (script w) = p # ps"
    by (cases "pagesOf (Unmarshal R) (zero R) (memory w) (script w)") auto
  obtain r h where p: "p = (r, h)" by (cases p)
  from pagesOf_Cons_D [OF ps] p obtain resp rest d where a: "script w = Inr resp # rest"
      "200 \<le> StatusCode resp" "StatusCode resp < 300" "Body resp = Inr d"
      "Unmarshal R d (zero R) (memory w) = (Inr r, h)" "ps = pagesOf (Unmarshal R) r h rest"
    by auto
  let ?w1 = "w\<lparr>script := rest, sent := sent w @ [wire lib c path params],
               taken := Suc (taken w)\<rparr>"
  let ?w2 = "?w1\<lparr>memory := h\<rparr>"
  have g: "get lib c path params w = Returns ((d, None), ?w1)"
    using get_delivers [OF assms(1) assms(5) a(1) a(2) a(3) a(4)] .
  have start: "getResultPaginated R lib c path params w =
               pageLoop R lib c (path @ [''continuation''])
                 (params @ [continuationParam (Token R r)]) r [] ?w2"
    by (simp add: getResultPaginated_def g a(5) continuationParam_def)
  have "\<exists>e w'. pageLoop R lib c (path @ [''continuation''])
                 (params @ [continuationParam (Token R r)]) r [] ?w2 = Returns (([], Some e), w')
               \<and> length (sent w') = length (sent ?w2) + (m + 1)
               \<and> script w' = drop (m + 1) (script ?w2)
               \<and> taken w' = taken ?w2 + (m + 1)"
  proof (rule pageLoop_fails_run [OF assms(1)])
    show "length (pagesOf (Unmarshal R) r (memory ?w2) (script ?w2)) = m"
      using assms(2) Suc ps a(6) by simp
    show "m < length (script ?w2)"
      using assms(3) Suc a(1) by simp
    show "\<forall>p\<in>set ((r, memory ?w2) # pagesOf (Unmarshal R) r (memory ?w2) (script ?w2)).
            Result R (fst p) \<noteq> []"
      using assms(4) ps p a(6) by simp
    show "\<forall>p\<in>set ((r, memory ?w2) # pagesOf (Unmarshal R) r (memory ?w2) (script ?w2)).
            accepted lib c (path @ [''continuation''])
              (params @ [continuationParam (Token R (fst p))])"
      using assms(6) ps p a(6) by simp
  qed
  then show ?thesis
    unfolding start using a(1) Suc by auto
qed

section \<open>The hand-written \<open>GetUserTweets\<close>: lemmas\<close>

lemma twitter154_get_sends:
  assumes "ready c" and "twitter154_accepted lib c pth prms" and "script w = a # rest"
  shows "\<exists>d err. twitter154_get lib c pth prms w =
           Returns ((d, err),
             w\<lparr>script := rest, sent := sent w @ [twitter154_wire lib c pth prms],
               taken := Suc (taken w)\<rparr>)
         \<and> (err = None \<longrightarrow>
              (\<exists>resp. a = Inr resp \<and> 200 \<le> StatusCode resp \<and> StatusCode resp < 300 \<and>
                      Body resp = Inr d))"
  using assms
  by (auto simp: twitter154_get_def do_def ready_def twitter154_accepted_def
                 twitter154_wire_def Let_def twitter154_buildUrlWithParameters_def buildUrl_def
           split: option.splits outcome.splits sum.splits)

lemma twitter154_get_delivers:
  assumes "ready c" and "twitter154_accepted lib c pth prms"
    and "script w = Inr resp # rest"
    and "200 \<le> StatusCode resp" and "StatusCode resp < 300" and "Body resp = Inr d"
  shows "twitter154_get lib c pth prms w =
           Returns ((d, None),
             w\<lparr>script := rest, sent := sent w @ [twitter154_wire lib c pth prms],
               taken := Suc (taken w)\<rparr>)"
  using assms
  by (auto simp: twitter154_get_def do_def ready_def twitter154_accepted_def
                 twitter154_wire_def Let_def twitter154_buildUrlWithParameters_def buildUrl_def
           split: option.splits outcome.splits)

lemma pagesOf_fresh:
  "pagesOf (\<lambda>d r. json d z) r h answers = pagesOf (\<lambda>d r. json d z) r' h answers"
  by (cases answers) (auto split: sum.splits prod.splits)

lemma twitter154_tokenLoop_run:
  assumes "ready c"
    and "k < length (token # map (\<lambda>p. ContinuationToken (fst p)) (pagesOf (\<lambda>d r. json d zeroResponse) z (memory w) (script w)))"
    and "(token # map (\<lambda>p. ContinuationToken (fst p)) (pagesOf (\<lambda>d r. json d zeroResponse) z (memory w) (script w))) ! k = []"
    and "\<forall>j<k. (token # map (\<lambda>p. ContinuationToken (fst p)) (pagesOf (\<lambda>d r. json d zeroResponse) z (memory w) (script w))) ! j \<noteq> []"
    and "\<forall>j<k. twitter154_accepted lib c [''user'', ''tweets'', ''continuation'']
            (params @ [continuationParam ((token # map (\<lambda>p. ContinuationToken (fst p))
               (pagesOf (\<lambda>d r. json d zeroResponse) z (memory w) (script w))) ! j)])"
  shows "\<exists>w'. twitter154_tokenLoop json lib c token (params @ [continuationParam token]) tweets w =
           Returns ((tweets @ concat (map (\<lambda>p. Results (fst p))
                       (take k (pagesOf (\<lambda>d r. json d zeroResponse) z (memory w) (script w)))), None), w')
         \<and> length (sent w') = length (sent w) + k
         \<and> script w' = drop k (script w)
         \<and> taken w' = taken w + k"
  using assms
proof (induction k arbitrary: token tweets w)
  case 0
  then show ?case
    by (subst twitter154_tokenLoop.simps) simp
next
  case (Suc k)
  from Suc.prems(2) obtain p ps where ps: "pagesOf (\<lambda>d r. json d zeroResponse) z (memory w) (script w) = p # ps"
    by (cases "pagesOf (\<lambda>d r. json d zeroResponse) z (memory w) (script w)") auto
  obtain r' h' where p: "p = (r', h')" by (cases p)
  from pagesOf_Cons_D [OF ps] p obtain resp rest d where a: "script w = Inr resp # rest"
      "200 \<le> StatusCode resp" "StatusCode resp < 300" "Body resp = Inr d"
      "json d zeroResponse (memory w) = (Inr r', h')"
      "ps = pagesOf (\<lambda>d r. json d zeroResponse) r' h' rest"
    by auto
  have ps': "ps = pagesOf (\<lambda>d r. json d zeroResponse) z h' rest"
    unfolding a(6) by (rule pagesOf_fresh)
  from Suc.prems(4) have ne: "token \<noteq> []" by auto
  from Suc.prems(5) have acc: "twitter154_accepted lib c [''user'', ''tweets'', ''continuation'']
      (params @ [continuationParam token])"
    by auto
  let ?w1 = "w\<lparr>script := rest,
               sent := sent w @ [twitter154_wire lib c [''user'', ''tweets'', ''continuation'']
                                   (params @ [continuationParam token])],
               taken := Suc (taken w)\<rparr>"
  let ?w2 = "?w1\<lparr>memory := h'\<rparr>"
  have g: "twitter154_get lib c [''user'', ''tweets'', ''continuation'']
             (params @ [continuationParam token]) w = Returns ((d, None), ?w1)"
    using twitter154_get_delivers [OF Suc.prems(1) acc a(1) a(2) a(3) a(4)] .
  have step: "twitter154_tokenLoop json lib c token (params @ [continuationParam token]) tweets w =
              twitter154_tokenLoop json lib c (ContinuationToken r')
                (params @ [continuationParam (ContinuationToken r')]) (tweets @ Results r') ?w2"
    by (subst twitter154_tokenLoop.simps) (simp add: g a(5) ne, simp add: continuationParam_def)
  have "\<exists>w'. twitter154_tokenLoop json lib c (ContinuationToken r')
                (params @ [continuationParam (ContinuationToken r')]) (tweets @ Results r') ?w2 =
           Returns (((tweets @ Results r') @ concat (map (\<lambda>p. Results (fst p))
                       (take k (pagesOf (\<lambda>d r. json d zeroResponse) z (memory ?w2) (script ?w2)))), None), w')
         \<and> length (sent w') = length (sent ?w2) + k
         \<and> script w' = drop k (script ?w2)
         \<and> taken w' = taken ?w2 + k"
  proof (rule Suc.IH [OF Suc.prems(1)])
    show "k < length (ContinuationToken r' # map (\<lambda>p. ContinuationToken (fst p))
                        (pagesOf (\<lambda>d r. json d zeroResponse) z (memory ?w2) (script ?w2)))"
      using Suc.prems(2) ps p ps' by simp
    show "(ContinuationToken r' # map (\<lambda>p. ContinuationToken (fst p))
             (pagesOf (\<lambda>d r. json d zeroResponse) z (memory ?w2) (script ?w2))) ! k = []"
      using Suc.prems(3) ps p ps' by simp
    show "\<forall>j<k. (ContinuationToken r' # map (\<lambda>p. ContinuationToken (fst p))
             (pagesOf (\<lambda>d r. json d zeroResponse) z (memory ?w2) (script ?w2))) ! j \<noteq> []"
      using Suc.prems(4) ps p ps' by auto
    show "\<forall>j<k. twitter154_accepted lib c [''user'', ''tweets'', ''continuation'']
            (params @ [continuationParam
               ((ContinuationToken r' # map (\<lambda>p. ContinuationToken (fst p))
                   (pagesOf (\<lambda>d r. json d zeroResponse) z (memory ?w2) (script ?w2))) ! j)])"
      using Suc.prems(5) ps p ps' by auto
  qed
  then show ?case
    unfolding step using ps p ps' a(1) by auto
qed

lemma twitter154_tokenLoop_fails_run:
  assumes "ready c"
    and "length (pagesOf (\<lambda>d r. json d zeroResponse) z (memory w) (script w)) = n"
    and "n < length (script w)"
    and "\<forall>t \<in> set (token # map (\<lambda>p. ContinuationToken (fst p)) (pagesOf (\<lambda>d r. json d zeroResponse) z (memory w) (script w))).
           t \<noteq> []"
    and "\<forall>t \<in> set (token # map (\<lambda>p. ContinuationToken (fst p)) (pagesOf (\<lambda>d r. json d zeroResponse) z (memory w) (script w))).
           twitter154_accepted lib c [''user'', ''tweets'', ''continuation'']
             (params @ [continuationParam t])"
  shows "\<exists>e w'. twitter154_tokenLoop json lib c token (params @ [continuationParam token]) tweets w =
                  Returns (([], Some e), w')
               \<and> length (sent w') = length (sent w) + (n + 1)
               \<and> script w' = drop (n + 1) (script w)
               \<and> taken w' = taken w + (n + 1)"
  using assms
proof (induction n arbitrary: token tweets w)
  case 0
  from "0.prems"(3) obtain a rest where sc: "script w = a # rest"
    by (cases "script w") auto
  from "0.prems"(4) have ne: "token \<noteq> []" by simp
  from "0.prems"(5) have acc: "twitter154_accepted lib c [''user'', ''tweets'', ''continuation'']
      (params @ [continuationParam token])"
    by simp
  let ?w1 = "w\<lparr>script := rest,
               sent := sent w @ [twitter154_wire lib c [''user'', ''tweets'', ''continuation'']
                                   (params @ [continuationParam token])],
               taken := Suc (taken w)\<rparr>"
  from twitter154_get_sends [OF "0.prems"(1) acc sc] obtain d err
    where g: "twitter154_get lib c [''user'', ''tweets'', ''continuation'']
                (params @ [continuationParam token]) w = Returns ((d, err), ?w1)"
      and dl: "err = None \<longrightarrow> (\<exists>resp. a = Inr resp \<and> 200 \<le> StatusCode resp \<and>
                 StatusCode resp < 300 \<and> Body resp = Inr d)"
    by blast
  show ?case
  proof (cases err)
    case (Some e)
    with g ne sc show ?thesis by (subst twitter154_tokenLoop.simps) simp
  next
    case None
    with dl obtain resp where a: "a = Inr resp" "200 \<le> StatusCode resp"
      "StatusCode resp < 300" "Body resp = Inr d" by blast
    have "pagesOf (\<lambda>d r. json d zeroResponse) z (memory w) (Inr resp # rest) = []"
      using "0.prems"(2) sc a(1) by simp
    from pagesOf_Nil_D [OF this a(2) a(3) a(4)] obtain msg h
      where U: "json d zeroResponse (memory w) = (Inl msg, h)"
      by (metis prod.collapse)
    show ?thesis
      using g ne sc None U by (subst twitter154_tokenLoop.simps) simp
  qed
next
  case (Suc n)
  from Suc.prems(2) obtain p ps where ps: "pagesOf (\<lambda>d r. json d zeroResponse) z (memory w) (script w) = p # ps"
    by (cases "pagesOf (\<lambda>d r. json d zeroResponse) z (memory w) (script w)") auto
  obtain r' h' where p: "p = (r', h')" by (cases p)
  from pagesOf_Cons_D [OF ps] p obtain resp rest d where a: "script w = Inr resp # rest"
      "200 \<le> StatusCode resp" "StatusCode resp < 300" "Body resp = Inr d"
      "json d zeroResponse (memory w) = (Inr r', h')"
      "ps = pagesOf (\<lambda>d r. json d zeroResponse) r' h' rest"
    by auto
  have ps': "ps = pagesOf (\<lambda>d r. json d zeroResponse) z h' rest"
    unfolding a(6) by (rule pagesOf_fresh)
  from Suc.prems(4) have ne: "token \<noteq> []" by simp
  from Suc.prems(5) have acc: "twitter154_accepted lib c [''user'', ''tweets'', ''continuation'']
      (params @ [continuationParam token])"
    by simp
  let ?w1 = "w\<lparr>script := rest,
               sent := sent w @ [twitter154_wire lib c [''user'', ''tweets'', ''continuation'']
                                   (params @ [continuationParam token])],
               taken := Suc (taken w)\<rparr>"
  let ?w2 = "?w1\<lparr>memory := h'\<rparr>"
  have g: "twitter154_get lib c [''user'', ''tweets'', ''continuation'']
             (params @ [continuationParam token]) w = Returns ((d, None), ?w1)"
    using twitter154_get_delivers [OF Suc.prems(1) acc a(1) a(2) a(3) a(4)] .
  have step: "twitter154_tokenLoop json lib c token (params @ [continuationParam token]) tweets w =
              twitter154_tokenLoop json lib c (ContinuationToken r')
                (params @ [continuationParam (ContinuationToken r')]) (tweets @ Results r') ?w2"
    by (subst twitter154_tokenLoop.simps) (simp add: g a(5) ne, simp add: continuationParam_def)
  have "\<exists>e w'. twitter154_tokenLoop json lib c (ContinuationToken r')
                (params @ [continuationParam (ContinuationToken r')]) (tweets @ Results r') ?w2 =
                  Returns (([], Some e), w')
               \<and> length (sent w') = length (sent ?w2) + (n + 1)
               \<and> script w' = drop (n + 1) (script ?w2)
               \<and> taken w' = taken ?w2 + (n + 1)"
  proof (rule Suc.IH [OF Suc.prems(1)])
    show "length (pagesOf (\<lambda>d r. json d zeroResponse) z (memory ?w2) (script ?w2)) = n"
      using Suc.prems(2) ps ps' by simp
    show "n < length (script ?w2)"
      using Suc.prems(3) a(1) by simp
    show "\<forall>t\<in>set (ContinuationToken r' # map (\<lambda>p. ContinuationToken (fst p))
                     (pagesOf (\<lambda>d r. json d zeroResponse) z (memory ?w2) (script ?w2))). t \<noteq> []"
      using Suc.prems(4) ps p ps' by simp
    show "\<forall>t\<in>set (ContinuationToken r' # map (\<lambda>p. ContinuationToken (fst p))
                     (pagesOf (\<lambda>d r. json d zeroResponse) z (memory ?w2) (script ?w2))).
            twitter154_accepted lib c [''user'', ''tweets'', ''continuation'']
              (params @ [continuationParam t])"
      using Suc.prems(5) ps p ps' by simp
  qed
  then show ?case
    unfolding step using a(1) by auto
qed

lemma twitter154_GetUserTweets_run:
  assumes "ready c"
    and "k < length (pagesOf (\<lambda>d r. json d zeroResponse) zeroResponse (memory w) (script w))"
    and "ContinuationToken (fst ((pagesOf (\<lambda>d r. json d zeroResponse) zeroResponse (memory w) (script w)) ! k)) = []"
    and "\<forall>j<k. ContinuationToken (fst ((pagesOf (\<lambda>d r. json d zeroResponse) zeroResponse (memory w) (script w)) ! j)) \<noteq> []"
    and "twitter154_accepted lib c [''user'', ''tweets''] (getUserTweetsParams userId opts)"
    and "\<forall>j<k. twitter154_accepted lib c [''user'', ''tweets'', ''continuation'']
            ((getUserTweetsParams userId opts) @ [continuationParam (ContinuationToken (fst ((pagesOf (\<lambda>d r. json d zeroResponse) zeroResponse (memory w) (script w)) ! j)))])"
  shows "\<exists>w'. twitter154_GetUserTweets json lib c userId opts w =
           Returns ((concat (map (\<lambda>p. Results (fst p)) (take k (tl (pagesOf (\<lambda>d r. json d zeroResponse) zeroResponse (memory w) (script w))))), None), w')
         \<and> length (sent w') = length (sent w) + (k + 1)
         \<and> script w' = drop (k + 1) (script w)
         \<and> taken w' = taken w + (k + 1)"
proof -
  from assms(2) obtain p ps where ps: "(pagesOf (\<lambda>d r. json d zeroResponse) zeroResponse (memory w) (script w)) = p # ps"
    by (cases "(pagesOf (\<lambda>d r. json d zeroResponse) zeroResponse (memory w) (script w))") auto
  obtain r h where p: "p = (r, h)" by (cases p)
  from pagesOf_Cons_D [OF ps] p obtain resp rest d where a: "script w = Inr resp # rest"
      "200 \<le> StatusCode resp" "StatusCode resp < 300" "Body resp = Inr d"
      "json d zeroResponse (memory w) = (Inr r, h)" "ps = pagesOf (\<lambda>d r. json d zeroResponse) r h rest"
    by auto
  have ps': "ps = pagesOf (\<lambda>d r. json d zeroResponse) zeroResponse h rest"
    unfolding a(6) by (rule pagesOf_fresh)
  let ?w1 = "w\<lparr>script := rest, sent := sent w @ [twitter154_wire lib c [''user'', ''tweets''] (getUserTweetsParams userId opts)],
               taken := Suc (taken w)\<rparr>"
  let ?w2 = "?w1\<lparr>memory := h\<rparr>"
  have g: "twitter154_get lib c [''user'', ''tweets''] (getUserTweetsParams userId opts) w = Returns ((d, None), ?w1)"
    using twitter154_get_delivers [OF assms(1) assms(5) a(1) a(2) a(3) a(4)] .
  have start: "twitter154_GetUserTweets json lib c userId opts w =
               twitter154_tokenLoop json lib c (ContinuationToken r)
                 ((getUserTweetsParams userId opts) @ [continuationParam (ContinuationToken r)]) [] ?w2"
    by (simp add: twitter154_GetUserTweets_def Let_def g a(5) continuationParam_def)
  have "\<exists>w'. twitter154_tokenLoop json lib c (ContinuationToken r)
                 ((getUserTweetsParams userId opts) @ [continuationParam (ContinuationToken r)]) [] ?w2 =
           Returns (([] @ concat (map (\<lambda>p. Results (fst p))
                       (take k (pagesOf (\<lambda>d r. json d zeroResponse) zeroResponse (memory ?w2) (script ?w2)))), None), w')
         \<and> length (sent w') = length (sent ?w2) + k
         \<and> script w' = drop k (script ?w2)
         \<and> taken w' = taken ?w2 + k"
  proof (rule twitter154_tokenLoop_run [OF assms(1)])
    show "k < length (ContinuationToken r # map (\<lambda>p. ContinuationToken (fst p))
                        (pagesOf (\<lambda>d r. json d zeroResponse) zeroResponse (memory ?w2) (script ?w2)))"
      using assms(2) ps ps' by simp
    show "(ContinuationToken r # map (\<lambda>p. ContinuationToken (fst p))
             (pagesOf (\<lambda>d r. json d zeroResponse) zeroResponse (memory ?w2) (script ?w2))) ! k = []"
      using assms(2) assms(3) ps p ps' by (cases k) simp_all
    show "\<forall>j<k. (ContinuationToken r # map (\<lambda>p. ContinuationToken (fst p))
             (pagesOf (\<lambda>d r. json d zeroResponse) zeroResponse (memory ?w2) (script ?w2))) ! j \<noteq> []"
    proof (intro allI impI)
      fix j assume "j < k"
      then have "ContinuationToken (fst ((pagesOf (\<lambda>d r. json d zeroResponse) zeroResponse (memory w) (script w)) ! j)) \<noteq> []" "j < length (pagesOf (\<lambda>d r. json d zeroResponse) zeroResponse (memory w) (script w))"
        using assms(2) assms(4) by auto
      then show "(ContinuationToken r # map (\<lambda>p. ContinuationToken (fst p))
             (pagesOf (\<lambda>d r. json d zeroResponse) zeroResponse (memory ?w2) (script ?w2))) ! j \<noteq> []"
        using ps p ps' by (cases j) simp_all
    qed
    show "\<forall>j<k. twitter154_accepted lib c [''user'', ''tweets'', ''continuation'']
            ((getUserTweetsParams userId opts) @ [continuationParam
               ((ContinuationToken r # map (\<lambda>p. ContinuationToken (fst p))
                   (pagesOf (\<lambda>d r. json d zeroResponse) zeroResponse (memory ?w2) (script ?w2))) ! j)])"
    proof (intro allI impI)
      fix j assume "j < k"
      then have "twitter154_accepted lib c [''user'', ''tweets'', ''continuation'']
            ((getUserTweetsParams userId opts) @ [continuationParam (ContinuationToken (fst ((pagesOf (\<lambda>d r. json d zeroResponse) zeroResponse (memory w) (script w)) ! j)))])" "j < length (pagesOf (\<lambda>d r. json d zeroResponse) zeroResponse (memory w) (script w))"
        using assms(2) assms(6) by auto
      then show "twitter154_accepted lib c [''user'', ''tweets'', ''continuation'']
            ((getUserTweetsParams userId opts) @ [continuationParam
               ((ContinuationToken r # map (\<lambda>p. ContinuationToken (fst p))
                   (pagesOf (\<lambda>d r. json d zeroResponse) zeroResponse (memory ?w2) (script ?w2))) ! j)])"
        using ps p ps' by (cases j) simp_all
    qed
  qed
  then show ?thesis
    unfolding start using ps ps' a(1) by auto
qed

lemma twitter154_GetUserTweets_fails_run:
  assumes "ready c"
    and "n = length (pagesOf (\<lambda>d r. json d zeroResponse) zeroResponse (memory w) (script w))"
    and "n < length (script w)"
    and "\<forall>p \<in> set (pagesOf (\<lambda>d r. json d zeroResponse) zeroResponse (memory w) (script w)). ContinuationToken (fst p) \<noteq> []"
    and "twitter154_accepted lib c [''user'', ''tweets''] (getUserTweetsParams userId opts)"
    and "\<forall>p \<in> set (pagesOf (\<lambda>d r. json d zeroResponse) zeroResponse (memory w) (script w)). twitter154_accepted lib c [''user'', ''tweets'', ''continuation'']
            ((getUserTweetsParams userId opts) @ [continuationParam (ContinuationToken (fst p))])"
  shows "\<exists>e w'. twitter154_GetUserTweets json lib c userId opts w = Returns (([], Some e), w')
               \<and> length (sent w') = length (sent w) + (n + 1)
               \<and> script w' = drop (n + 1) (script w)
               \<and> taken w' = taken w + (n + 1)"
proof (cases n)
  case 0
  from assms(3) obtain a rest where sc: "script w = a # rest"
    by (cases "script w") auto
  let ?w1 = "w\<lparr>script := rest, sent := sent w @ [twitter154_wire lib c [''user'', ''tweets''] (getUserTweetsParams userId opts)],
               taken := Suc (taken w)\<rparr>"
  from twitter154_get_sends [OF assms(1) assms(5) sc] obtain d err
    where g: "twitter154_get lib c [''user'', ''tweets''] (getUserTweetsParams userId opts) w = Returns ((d, err), ?w1)"
      and dl: "err = None \<longrightarrow> (\<exists>resp. a = Inr resp \<and> 200 \<le> StatusCode resp \<and>
                 StatusCode resp < 300 \<and> Body resp = Inr d)"
    by blast
  show ?thesis
  proof (cases err)
    case (Some e)
    with g sc 0 show ?thesis by (simp add: twitter154_GetUserTweets_def Let_def)
  next
    case None
    with dl obtain resp where a: "a = Inr resp" "200 \<le> StatusCode resp"
      "StatusCode resp < 300" "Body resp = Inr d" by blast
    have "pagesOf (\<lambda>d r. json d zeroResponse) zeroResponse (memory w) (Inr resp # rest) = []"
      using assms(2) 0 sc a(1) by simp
    from pagesOf_Nil_D [OF this a(2) a(3) a(4)] obtain msg h
      where U: "json d zeroResponse (memory w) = (Inl msg, h)"
      by (metis prod.collapse)
    show ?thesis
      using g sc None U 0 by (simp add: twitter154_GetUserTweets_def Let_def)
  qed
next
  case (Suc m)
  with assms(2) obtain p ps where ps: "(pagesOf (\<lambda>d r. json d zeroResponse) zeroResponse (memory w) (script w)) = p # ps"
    by (cases "(pagesOf (\<lambda>d r. json d zeroResponse) zeroResponse (memory w) (script w))") auto
  obtain r h where p: "p = (r, h)" by (cases p)
  from pagesOf_Cons_D [OF ps] p obtain resp rest d where a: "script w = Inr resp # rest"
      "200 \<le> StatusCode resp" "StatusCode resp < 300" "Body resp = Inr d"
      "json d zeroResponse (memory w) = (Inr r, h)" "ps = pagesOf (\<lambda>d r. json d zeroResponse) r h rest"
    by auto
  have ps': "ps = pagesOf (\<lambda>d r. json d zeroResponse) zeroResponse h rest"
    unfolding a(6) by (rule pagesOf_fresh)
  let ?w1 = "w\<lparr>script := rest, sent := sent w @ [twitter154_wire lib c [''user'', ''tweets''] (getUserTweetsParams userId opts)],
               taken := Suc (taken w)\<rparr>"
  let ?w2 = "?w1\<lparr>memory := h\<rparr>"
  have g: "twitter154_get lib c [''user'', ''tweets''] (getUserTweetsParams userId opts) w = Returns ((d, None), ?w1)"
    using twitter154_get_delivers [OF assms(1) assms(5) a(1) a(2) a(3) a(4)] .
  have start: "twitter154_GetUserTweets json lib c userId opts w =
               twitter154_tokenLoop json lib c (ContinuationToken r)
                 ((getUserTweetsParams userId opts) @ [continuationParam (ContinuationToken r)]) [] ?w2"
    by (simp add: twitter154_GetUserTweets_def Let_def g a(5) continuationParam_def)
  have "\<exists>e w'. twitter154_tokenLoop json lib c (ContinuationToken r)
                 ((getUserTweetsParams userId opts) @ [continuationParam (ContinuationToken r)]) [] ?w2 =
                  Returns (([], Some e), w')
               \<and> length (sent w') = length (sent ?w2) + (m + 1)
               \<and> script w' = drop (m + 1) (script ?w2)
               \<and> taken w' = taken ?w2 + (m + 1)"
  proof (rule twitter154_tokenLoop_fails_run [OF assms(1)])
    show "length (pagesOf (\<lambda>d r. json d zeroResponse) zeroResponse (memory ?w2) (script ?w2)) = m"
      using assms(2) Suc ps ps' by simp
    show "m < length (script ?w2)"
      using assms(3) Suc a(1) by simp
    show "\<forall>t\<in>set (ContinuationToken r # map (\<lambda>p. ContinuationToken (fst p))
                     (pagesOf (\<lambda>d r. json d zeroResponse) zeroResponse (memory ?w2) (script ?w2))). t \<noteq> []"
      using assms(4) ps p ps' by auto
    show "\<forall>t\<in>set (ContinuationToken r # map (\<lambda>p. ContinuationToken (fst p))
                     (pagesOf (\<lambda>d r. json d zeroResponse) zeroResponse (memory ?w2) (script ?w2))).
            twitter154_accepted lib c [''user'', ''tweets'', ''continuation'']
              ((getUserTweetsParams userId opts) @ [continuationParam t])"
      using assms(6) ps p ps' by auto
  qed
  then show ?thesis
    unfolding start using a(1) Suc by auto
qed

section \<open>Paginator: theorems\<close>








text \<open>
  C4. A paginated call that returns an error returns the empty list with it. One that
  returns no error has decoded a page with no items and returns the whole accumulator: the
  copies, made when each page was appended, of the items of all pages before the first
  such page. When an answer of the transport fails or does not decode before any page
  without items is seen, the call returns an error and the empty list.
\<close>

theorem getResultPaginated_all_or_nothing:
  "(getResultPaginated R lib c path params w = Returns ((res, err), w') \<longrightarrow>
      (err \<noteq> None \<longrightarrow> res = []) \<and>
      (err = None \<longrightarrow>
         (\<exists>p \<in> set (pagesOf (Unmarshal R) (zero R) (memory w) (script w)).
             Result R (fst p) = []) \<and>
         res = concat (map (\<lambda>p. Result R (fst p))
                 (takeWhile (\<lambda>p. Result R (fst p) \<noteq> [])
                    (pagesOf (Unmarshal R) (zero R) (memory w) (script w))))))
   \<and> (ready c
        \<and> (\<forall>p \<in> set (pagesOf (Unmarshal R) (zero R) (memory w) (script w)).
              Result R (fst p) \<noteq> [])
        \<and> length (pagesOf (Unmarshal R) (zero R) (memory w) (script w)) < length (script w) \<longrightarrow>
      (\<exists>e w''. getResultPaginated R lib c path params w = Returns (([], Some e), w'')))"
  using getResultPaginated_Returns [of R lib c path params w res err w']
    getResultPaginated_fails [of c R w lib path params]
  by blast

theorem getResultPaginated_all_or_nothing_witness:
  "(\<exists>p \<in> set (pagesOf sampleJson zeroResponse []
                  [ok ''a:one:x1;b:two:|t1'', ok ''c:three:|t2'', ok ''|'']).
       Results (fst p) = [])
   \<and> [\<lparr>TweetId = ''a'', Text = ''one'', MediaUrl = \<lparr>arr = 0, len = 1, cap = 4\<rparr>\<rparr>,
       \<lparr>TweetId = ''b'', Text = ''two'', MediaUrl = \<lparr>arr = 0, len = 0, cap = 0\<rparr>\<rparr>,
       \<lparr>TweetId = ''c'', Text = ''three'', MediaUrl = \<lparr>arr = 0, len = 0, cap = 0\<rparr>\<rparr>]
     = concat (map (\<lambda>p. Results (fst p)) (takeWhile (\<lambda>p. Results (fst p) \<noteq> [])
                (pagesOf sampleJson zeroResponse []
                   [ok ''a:one:x1;b:two:|t1'', ok ''c:three:|t2'', ok ''|''])))
   \<and> (\<exists>e w'. getResultPaginated (getUserTweetsShape sampleJson) sampleLib sampleClient
          [''user'', ''tweets''] [\<lparr>key = ''user_id'', val = AnyString ''7''\<rparr>]
          (startWorld [ok ''a:one:x1;b:two:|t1'', ok ''c:three:|t2'', ok ''not a page'']) =
        Returns (([], Some e), w'))"
proof -
  have good: "getResultPaginated (getUserTweetsShape sampleJson) sampleLib sampleClient
      [''user'', ''tweets''] [\<lparr>key = ''user_id'', val = AnyString ''7''\<rparr>]
      (startWorld [ok ''a:one:x1;b:two:|t1'', ok ''c:three:|t2'', ok ''|''])
    = Returns (([\<lparr>TweetId = ''a'', Text = ''one'', MediaUrl = \<lparr>arr = 0, len = 1, cap = 4\<rparr>\<rparr>,
                 \<lparr>TweetId = ''b'', Text = ''two'', MediaUrl = \<lparr>arr = 0, len = 0, cap = 0\<rparr>\<rparr>,
                 \<lparr>TweetId = ''c'', Text = ''three'', MediaUrl = \<lparr>arr = 0, len = 0, cap = 0\<rparr>\<rparr>],
                None),
        \<lparr>script = [],
         sent = map (wire sampleLib sampleClient [''user'', ''tweets''])
                  [[\<lparr>key = ''user_id'', val = AnyString ''7''\<rparr>]] @
                map (wire sampleLib sampleClient [''user'', ''tweets'', ''continuation''])
                  [[\<lparr>key = ''user_id'', val = AnyString ''7''\<rparr>, continuationParam ''t1''],
                   [\<lparr>key = ''user_id'', val = AnyString ''7''\<rparr>, continuationParam ''t2'']],
         taken = 3, memory = [[''x1'', [], [], []]]\<rparr>)"
    by code_simp
  have pg: "pagesOf sampleJson zeroResponse []
              [ok ''a:one:x1;b:two:|t1'', ok ''c:three:|t2'', ok ''not a page'']
    = [(\<lparr>Results = [\<lparr>TweetId = ''a'', Text = ''one'', MediaUrl = \<lparr>arr = 0, len = 1, cap = 4\<rparr>\<rparr>,
                      \<lparr>TweetId = ''b'', Text = ''two'', MediaUrl = \<lparr>arr = 0, len = 0, cap = 0\<rparr>\<rparr>],
          ResultsSpare = [zeroTweet, zeroTweet], ContinuationToken = ''t1''\<rparr>,
        [[''x1'', [], [], []]]),
       (\<lparr>Results = [\<lparr>TweetId = ''c'', Text = ''three'', MediaUrl = \<lparr>arr = 0, len = 0, cap = 0\<rparr>\<rparr>],
          ResultsSpare = [\<lparr>TweetId = ''b'', Text = ''two'', MediaUrl = \<lparr>arr = 0, len = 0, cap = 0\<rparr>\<rparr>,
                          zeroTweet, zeroTweet],
          ContinuationToken = ''t2''\<rparr>,
        [[''x1'', [], [], []]])]"
    by code_simp
  have r: "ready sampleClient" by code_simp
  have A: "(\<exists>p \<in> set (pagesOf sampleJson zeroResponse []
                  [ok ''a:one:x1;b:two:|t1'', ok ''c:three:|t2'', ok ''|'']).
       Results (fst p) = [])
   \<and> [\<lparr>TweetId = ''a'', Text = ''one'', MediaUrl = \<lparr>arr = 0, len = 1, cap = 4\<rparr>\<rparr>,
       \<lparr>TweetId = ''b'', Text = ''two'', MediaUrl = \<lparr>arr = 0, len = 0, cap = 0\<rparr>\<rparr>,
       \<lparr>TweetId = ''c'', Text = ''three'', MediaUrl = \<lparr>arr = 0, len = 0, cap = 0\<rparr>\<rparr>]
     = concat (map (\<lambda>p. Results (fst p)) (takeWhile (\<lambda>p. Results (fst p) \<noteq> [])
                (pagesOf sampleJson zeroResponse []
                   [ok ''a:one:x1;b:two:|t1'', ok ''c:three:|t2'', ok ''|''])))"
    using getResultPaginated_all_or_nothing [THEN conjunct1, rule_format, OF good]
    by (simp add: getUserTweetsShape_def startWorld_def del: pagesOf.simps)
  have B: "\<exists>e w'. getResultPaginated (getUserTweetsShape sampleJson) sampleLib sampleClient
          [''user'', ''tweets''] [\<lparr>key = ''user_id'', val = AnyString ''7''\<rparr>]
          (startWorld [ok ''a:one:x1;b:two:|t1'', ok ''c:three:|t2'', ok ''not a page'']) =
        Returns (([], Some e), w')"
    using getResultPaginated_all_or_nothing [THEN conjunct2, rule_format,
        of sampleClient "getUserTweetsShape sampleJson"
           "startWorld [ok ''a:one:x1;b:two:|t1'', ok ''c:three:|t2'', ok ''not a page'']"
           sampleLib "[''user'', ''tweets'']" "[\<lparr>key = ''user_id'', val = AnyString ''7''\<rparr>]"]
      r
    by (simp add: getUserTweetsShape_def startWorld_def pg del: pagesOf.simps)
  from A B show ?thesis by blast
qed

text \<open>
  C8. Every endpoint that is not implemented returns the sentinel \<open>ErrNotImplemented\<close>
  and leaves the world as it found it: no request is sent and no admission is taken from
  the rate limiter. No error that \<open>get\<close>, \<open>getResult\<close> or \<open>getResultPaginated\<close> returns
  (transport, status, body, decoding) is the sentinel or wraps it.
\<close>

theorem not_implemented_endpoints:
  "GetUserLikes c userId w = Returns (([], Some ErrNotImplemented), w)
   \<and> GetUserMedia c userId w = Returns ((AnyNil, Some ErrNotImplemented), w)
   \<and> GetTweetUserRetweets c tweetId w = Returns (([], Some ErrNotImplemented), w)
   \<and> Search c query w = Returns (([], Some ErrNotImplemented), w)
   \<and> GeoSearch c query opts w = Returns (([], Some ErrNotImplemented), w)
   \<and> Hashtag c hashtag w = Returns (([], Some ErrNotImplemented), w)
   \<and> GetListDetails c listId w = Returns ((AnyNil, Some ErrNotImplemented), w)
   \<and> GetListTweets c listId w = Returns (([], Some ErrNotImplemented), w)
   \<and> GetTrends c woeId w = Returns (([], Some ErrNotImplemented), w)
   \<and> GetLocations c w = Returns (([], Some ErrNotImplemented), w)
   \<and> (get lib c path params w = Returns ((d, Some e), wa) \<longrightarrow>
        \<not> errors_Is e ErrNotImplemented)
   \<and> (getResult S lib c path params w = Returns ((x, Some e'), wb) \<longrightarrow>
        \<not> errors_Is e' ErrNotImplemented)
   \<and> (getResultPaginated R lib c path params w = Returns ((xs, Some e''), wc) \<longrightarrow>
        \<not> errors_Is e'' ErrNotImplemented)"
  using get_error_foreign [of lib c path params w d e wa]
    getResult_error_foreign [of S lib c path params w x e' wb]
    getResultPaginated_error_foreign [of R lib c path params w xs e'' wc]
  by (simp add: GetUserLikes_def GetUserMedia_def GetTweetUserRetweets_def Search_def
        GeoSearch_def Hashtag_def GetListDetails_def GetListTweets_def GetTrends_def
        GetLocations_def)

theorem not_implemented_endpoints_witness:
  "GetUserLikes sampleClient ''7'' (startWorld [Inr \<lparr>StatusCode = 404, Body = Inr []\<rparr>])
     = Returns (([] :: string list, Some ErrNotImplemented),
                startWorld [Inr \<lparr>StatusCode = 404, Body = Inr []\<rparr>])
   \<and> \<not> errors_Is (StatusError 404) ErrNotImplemented
   \<and> \<not> errors_Is (Wrapf ''get'' (StatusError 404)) ErrNotImplemented"
proof -
  let ?w = "startWorld [Inr \<lparr>StatusCode = 404, Body = Inr []\<rparr>]"
  let ?w1 = "\<lparr>script = [],
              sent = [wire sampleLib sampleClient [''user'', ''likes'']
                        [\<lparr>key = ''user_id'', val = AnyString ''7''\<rparr>]],
              taken = 1, memory = [] :: heap\<rparr>"
  let ?R1 = "\<lparr>zeroT = [], zeroR = [], UnmarshalR = (\<lambda>data r h. (Inr data, h)),
              ResultR = (\<lambda>r. r)\<rparr> :: (string, string, heap) result"
  have g: "get sampleLib sampleClient [''user'', ''likes'']
             [\<lparr>key = ''user_id'', val = AnyString ''7''\<rparr>] ?w
           = Returns (([], Some (StatusError 404)), ?w1)"
    by code_simp
  have g1: "getResult ?R1 sampleLib sampleClient [''user'', ''likes'']
             [\<lparr>key = ''user_id'', val = AnyString ''7''\<rparr>] ?w
           = Returns (([], Some (Wrapf ''get'' (StatusError 404))), ?w1)"
    by (simp add: getResult_def g)
  have g2: "getResultPaginated (getUserTweetsShape sampleJson) sampleLib sampleClient
             [''user'', ''likes''] [\<lparr>key = ''user_id'', val = AnyString ''7''\<rparr>] ?w
           = Returns (([], Some (Wrapf ''get'' (StatusError 404))), ?w1)"
    by (simp add: getResultPaginated_def g)
  note T = not_implemented_endpoints
      [where c = sampleClient and userId = "''7''" and w = ?w and lib = sampleLib
         and path = "[''user'', ''likes'']"
         and params = "[\<lparr>key = ''user_id'', val = AnyString ''7''\<rparr>]"
         and d = "[]" and e = "StatusError 404" and wa = ?w1
         and S = ?R1 and x = "[]" and e' = "Wrapf ''get'' (StatusError 404)" and wb = ?w1
         and R = "getUserTweetsShape sampleJson" and xs = "[]"
         and e'' = "Wrapf ''get'' (StatusError 404)" and wc = ?w1]
  have a: "GetUserLikes sampleClient ''7'' ?w
             = Returns (([] :: string list, Some ErrNotImplemented), ?w)"
    by (rule T [THEN conjunct1])
  have b: "\<not> errors_Is (StatusError 404) ErrNotImplemented
           \<and> \<not> errors_Is (Wrapf ''get'' (StatusError 404)) ErrNotImplemented"
    using T g g1 g2 by blast
  from a b show ?thesis by blast
qed

section \<open>The two versions of \<open>GetUserTweets\<close>: theorems\<close>

text \<open>
  C9, as stated, fails. When the first page has a tweet and an empty token, the generic
  paginator asks for a second page and returns the tweet after two requests, while the
  loop of \<open>twitter154/api.go\<close> stops after one request and returns no tweet. On the three
  pages of one tweet each used above both send four requests, and the lists differ.
\<close>

theorem GetUserTweets_versions_counterexample:
  "observe viewTweet (GetUserTweets sampleJson sampleLib sampleClient ''7'' []
      (startWorld [ok ''a:one:|'', ok ''|'']))
   = Returns ([(''a'', ''one'', [])], None, 2)
   \<and> observe viewTweet (twitter154_GetUserTweets sampleJson sampleLib sampleClient ''7'' []
      (startWorld [ok ''a:one:|'', ok ''|'']))
   = Returns ([], None, 1)
   \<and> observe viewTweet (GetUserTweets sampleJson sampleLib sampleClient ''7'' []
      (startWorld [ok ''a:one:x1,x2|t1'', ok ''c:three:y1|t2'', ok ''d:four:z1|t3'', ok ''|'']))
   = Returns ([(''a'', ''one'', [''z1'', ''x2'']), (''c'', ''three'', [''z1'']),
               (''d'', ''four'', [''z1''])], None, 4)
   \<and> observe viewTweet (twitter154_GetUserTweets sampleJson sampleLib sampleClient ''7'' []
      (startWorld [ok ''a:one:x1,x2|t1'', ok ''c:three:y1|t2'', ok ''d:four:z1|t3'', ok ''|'']))
   = Returns ([(''c'', ''three'', [''y1'']), (''d'', ''four'', [''z1''])], None, 4)"
  by code_simp

text \<open>
  C9, amended. Let both versions decode the answers to pages with the same tokens, and let
  \<open>http.NewRequest\<close> accept the URLs that both build. If page \<open>k\<close> is the first without
  items and also has no token, while the pages before it have items and a token, both
  versions return without error after \<open>k + 1\<close> requests. If every page decoded has items
  and a token and the next answer fails or does not decode, both versions return an error
  and the empty list, after one request more than there are pages. In both cases they
  leave the same answers unread.
\<close>

theorem GetUserTweets_versions_agree:
  assumes "ready c"
    and "map (\<lambda>p. ContinuationToken (fst p)) (pagesOf (\<lambda>d r. json d zeroResponse) zeroResponse (memory w) (script w)) = map (\<lambda>p. ContinuationToken (fst p)) (pagesOf json zeroResponse (memory w) (script w))"
    and "accepted lib c [''user'', ''tweets''] (getUserTweetsParams userId opts)"
    and "twitter154_accepted lib c [''user'', ''tweets''] (getUserTweetsParams userId opts)"
  shows "(k < length (pagesOf json zeroResponse (memory w) (script w))
          \<and> Results (fst ((pagesOf json zeroResponse (memory w) (script w)) ! k)) = [] \<and> ContinuationToken (fst ((pagesOf json zeroResponse (memory w) (script w)) ! k)) = []
          \<and> (\<forall>j<k. Results (fst ((pagesOf json zeroResponse (memory w) (script w)) ! j)) \<noteq> [] \<and> ContinuationToken (fst ((pagesOf json zeroResponse (memory w) (script w)) ! j)) \<noteq> [])
          \<and> (\<forall>j<k. accepted lib c [''user'', ''tweets'', ''continuation'']
                       ((getUserTweetsParams userId opts) @ [continuationParam (ContinuationToken (fst ((pagesOf json zeroResponse (memory w) (script w)) ! j)))])
                   \<and> twitter154_accepted lib c [''user'', ''tweets'', ''continuation'']
                       ((getUserTweetsParams userId opts) @ [continuationParam (ContinuationToken (fst ((pagesOf json zeroResponse (memory w) (script w)) ! j)))]))
          \<longrightarrow> (\<exists>itemsG wG itemsL wL.
                  GetUserTweets json lib c userId opts w = Returns ((itemsG, None), wG)
                \<and> twitter154_GetUserTweets json lib c userId opts w = Returns ((itemsL, None), wL)
                \<and> length (sent wG) = length (sent w) + (k + 1)
                \<and> length (sent wL) = length (sent w) + (k + 1)
                \<and> taken wG = taken wL \<and> script wG = script wL))
       \<and> ((\<forall>p \<in> set (pagesOf json zeroResponse (memory w) (script w)). Results (fst p) \<noteq> [] \<and> ContinuationToken (fst p) \<noteq> [])
          \<and> length (pagesOf json zeroResponse (memory w) (script w)) < length (script w)
          \<and> (\<forall>p \<in> set (pagesOf json zeroResponse (memory w) (script w)). accepted lib c [''user'', ''tweets'', ''continuation'']
                       ((getUserTweetsParams userId opts) @ [continuationParam (ContinuationToken (fst p))])
                   \<and> twitter154_accepted lib c [''user'', ''tweets'', ''continuation'']
                       ((getUserTweetsParams userId opts) @ [continuationParam (ContinuationToken (fst p))]))
          \<longrightarrow> (\<exists>eG wG eL wL.
                  GetUserTweets json lib c userId opts w = Returns (([], Some eG), wG)
                \<and> twitter154_GetUserTweets json lib c userId opts w = Returns (([], Some eL), wL)
                \<and> length (sent wG) = length (sent w) + (length (pagesOf json zeroResponse (memory w) (script w)) + 1)
                \<and> length (sent wL) = length (sent w) + (length (pagesOf json zeroResponse (memory w) (script w)) + 1)
                \<and> taken wG = taken wL \<and> script wG = script wL))"
proof (intro conjI impI)
  let ?R = "getUserTweetsShape json"
  have sh: "Unmarshal ?R = json" "zero ?R = zeroResponse" "Result ?R = Results"
    "Token ?R = ContinuationToken"
    by (simp_all add: getUserTweetsShape_def)
  have len: "length (pagesOf (\<lambda>d r. json d zeroResponse) zeroResponse (memory w) (script w)) = length (pagesOf json zeroResponse (memory w) (script w))"
    using assms(2) by (metis length_map)
  have tok: "\<And>j. j < length (pagesOf json zeroResponse (memory w) (script w)) \<Longrightarrow>
               ContinuationToken (fst ((pagesOf (\<lambda>d r. json d zeroResponse) zeroResponse (memory w) (script w)) ! j)) = ContinuationToken (fst ((pagesOf json zeroResponse (memory w) (script w)) ! j))"
  proof -
    fix j assume j: "j < length (pagesOf json zeroResponse (memory w) (script w))"
    then have "map (\<lambda>p. ContinuationToken (fst p)) (pagesOf (\<lambda>d r. json d zeroResponse) zeroResponse (memory w) (script w)) ! j = map (\<lambda>p. ContinuationToken (fst p)) (pagesOf json zeroResponse (memory w) (script w)) ! j"
      using assms(2) by simp
    then show "ContinuationToken (fst ((pagesOf (\<lambda>d r. json d zeroResponse) zeroResponse (memory w) (script w)) ! j)) = ContinuationToken (fst ((pagesOf json zeroResponse (memory w) (script w)) ! j))"
      using j len by simp
  qed
  {
    assume h: "k < length (pagesOf json zeroResponse (memory w) (script w))
          \<and> Results (fst ((pagesOf json zeroResponse (memory w) (script w)) ! k)) = [] \<and> ContinuationToken (fst ((pagesOf json zeroResponse (memory w) (script w)) ! k)) = []
          \<and> (\<forall>j<k. Results (fst ((pagesOf json zeroResponse (memory w) (script w)) ! j)) \<noteq> [] \<and> ContinuationToken (fst ((pagesOf json zeroResponse (memory w) (script w)) ! j)) \<noteq> [])
          \<and> (\<forall>j<k. accepted lib c [''user'', ''tweets'', ''continuation'']
                       ((getUserTweetsParams userId opts) @ [continuationParam (ContinuationToken (fst ((pagesOf json zeroResponse (memory w) (script w)) ! j)))])
                   \<and> twitter154_accepted lib c [''user'', ''tweets'', ''continuation'']
                       ((getUserTweetsParams userId opts) @ [continuationParam (ContinuationToken (fst ((pagesOf json zeroResponse (memory w) (script w)) ! j)))]))"
    have G: "\<exists>itemsG wG. GetUserTweets json lib c userId opts w = Returns ((itemsG, None), wG)
               \<and> length (sent wG) = length (sent w) + (k + 1)
               \<and> taken wG = taken w + (k + 1) \<and> script wG = drop (k + 1) (script w)"
      unfolding GetUserTweets_def
      using getResultPaginated_run [of c k ?R w lib "[''user'', ''tweets'']" "(getUserTweetsParams userId opts)"]
        assms(1) assms(3) h
      by (simp add: sh min_def)
    have L: "\<exists>w'. twitter154_GetUserTweets json lib c userId opts w =
           Returns ((concat (map (\<lambda>p. Results (fst p)) (take k (tl (pagesOf (\<lambda>d r. json d zeroResponse) zeroResponse (memory w) (script w))))), None), w')
         \<and> length (sent w') = length (sent w) + (k + 1)
         \<and> script w' = drop (k + 1) (script w)
         \<and> taken w' = taken w + (k + 1)"
    proof (rule twitter154_GetUserTweets_run [OF assms(1)])
      show "k < length (pagesOf (\<lambda>d r. json d zeroResponse) zeroResponse (memory w) (script w))" using h len by simp
      show "ContinuationToken (fst ((pagesOf (\<lambda>d r. json d zeroResponse) zeroResponse (memory w) (script w)) ! k)) = []" using h tok by simp
      show "\<forall>j<k. ContinuationToken (fst ((pagesOf (\<lambda>d r. json d zeroResponse) zeroResponse (memory w) (script w)) ! j)) \<noteq> []" using h tok by simp
      show "twitter154_accepted lib c [''user'', ''tweets''] (getUserTweetsParams userId opts)" by (rule assms(4))
      show "\<forall>j<k. twitter154_accepted lib c [''user'', ''tweets'', ''continuation'']
              ((getUserTweetsParams userId opts) @ [continuationParam (ContinuationToken (fst ((pagesOf (\<lambda>d r. json d zeroResponse) zeroResponse (memory w) (script w)) ! j)))])"
        using h tok by simp
    qed
    from G L show "\<exists>itemsG wG itemsL wL.
                  GetUserTweets json lib c userId opts w = Returns ((itemsG, None), wG)
                \<and> twitter154_GetUserTweets json lib c userId opts w = Returns ((itemsL, None), wL)
                \<and> length (sent wG) = length (sent w) + (k + 1)
                \<and> length (sent wL) = length (sent w) + (k + 1)
                \<and> taken wG = taken wL \<and> script wG = script wL"
      by (metis (no_types, lifting))
  }
  {
    assume h: "(\<forall>p \<in> set (pagesOf json zeroResponse (memory w) (script w)). Results (fst p) \<noteq> [] \<and> ContinuationToken (fst p) \<noteq> [])
          \<and> length (pagesOf json zeroResponse (memory w) (script w)) < length (script w)
          \<and> (\<forall>p \<in> set (pagesOf json zeroResponse (memory w) (script w)). accepted lib c [''user'', ''tweets'', ''continuation'']
                       ((getUserTweetsParams userId opts) @ [continuationParam (ContinuationToken (fst p))])
                   \<and> twitter154_accepted lib c [''user'', ''tweets'', ''continuation'']
                       ((getUserTweetsParams userId opts) @ [continuationParam (ContinuationToken (fst p))]))"
    have G: "\<exists>e w'. GetUserTweets json lib c userId opts w = Returns (([], Some e), w')
               \<and> length (sent w') = length (sent w) + (length (pagesOf json zeroResponse (memory w) (script w)) + 1)
               \<and> script w' = drop (length (pagesOf json zeroResponse (memory w) (script w)) + 1) (script w)
               \<and> taken w' = taken w + (length (pagesOf json zeroResponse (memory w) (script w)) + 1)"
      unfolding GetUserTweets_def
      using getResultPaginated_fails_run [of c "length (pagesOf json zeroResponse (memory w) (script w))" ?R w lib "[''user'', ''tweets'']" "(getUserTweetsParams userId opts)"]
        assms(1) assms(3) h
      by (simp add: sh)
    have inL: "\<And>p. p \<in> set (pagesOf (\<lambda>d r. json d zeroResponse) zeroResponse (memory w) (script w)) \<Longrightarrow> \<exists>q \<in> set (pagesOf json zeroResponse (memory w) (script w)). ContinuationToken (fst p) = ContinuationToken (fst q)"
    proof -
      fix p assume "p \<in> set (pagesOf (\<lambda>d r. json d zeroResponse) zeroResponse (memory w) (script w))"
      then obtain j where j: "j < length (pagesOf (\<lambda>d r. json d zeroResponse) zeroResponse (memory w) (script w))" "p = (pagesOf (\<lambda>d r. json d zeroResponse) zeroResponse (memory w) (script w)) ! j"
        by (auto simp: in_set_conv_nth)
      with len tok have "ContinuationToken (fst p) = ContinuationToken (fst ((pagesOf json zeroResponse (memory w) (script w)) ! j))" "j < length (pagesOf json zeroResponse (memory w) (script w))"
        by simp_all
      then show "\<exists>q \<in> set (pagesOf json zeroResponse (memory w) (script w)). ContinuationToken (fst p) = ContinuationToken (fst q)"
        by (metis nth_mem)
    qed
    have L: "\<exists>e w'. twitter154_GetUserTweets json lib c userId opts w = Returns (([], Some e), w')
               \<and> length (sent w') = length (sent w) + (length (pagesOf json zeroResponse (memory w) (script w)) + 1)
               \<and> script w' = drop (length (pagesOf json zeroResponse (memory w) (script w)) + 1) (script w)
               \<and> taken w' = taken w + (length (pagesOf json zeroResponse (memory w) (script w)) + 1)"
    proof (rule twitter154_GetUserTweets_fails_run [OF assms(1)])
      show "length (pagesOf json zeroResponse (memory w) (script w)) = length (pagesOf (\<lambda>d r. json d zeroResponse) zeroResponse (memory w) (script w))" using len by simp
      show "length (pagesOf json zeroResponse (memory w) (script w)) < length (script w)" using h by simp
      show "\<forall>p\<in>set (pagesOf (\<lambda>d r. json d zeroResponse) zeroResponse (memory w) (script w)). ContinuationToken (fst p) \<noteq> []"
        using h inL by metis
      show "twitter154_accepted lib c [''user'', ''tweets''] (getUserTweetsParams userId opts)" by (rule assms(4))
      show "\<forall>p\<in>set (pagesOf (\<lambda>d r. json d zeroResponse) zeroResponse (memory w) (script w)). twitter154_accepted lib c [''user'', ''tweets'', ''continuation'']
              ((getUserTweetsParams userId opts) @ [continuationParam (ContinuationToken (fst p))])"
        using h inL by metis
    qed
    from G L show "\<exists>eG wG eL wL.
                  GetUserTweets json lib c userId opts w = Returns (([], Some eG), wG)
                \<and> twitter154_GetUserTweets json lib c userId opts w = Returns (([], Some eL), wL)
                \<and> length (sent wG) = length (sent w) + (length (pagesOf json zeroResponse (memory w) (script w)) + 1)
                \<and> length (sent wL) = length (sent w) + (length (pagesOf json zeroResponse (memory w) (script w)) + 1)
                \<and> taken wG = taken wL \<and> script wG = script wL"
      by (metis (no_types, lifting))
  }
qed

theorem GetUserTweets_versions_agree_witness:
  "(\<exists>itemsG wG itemsL wL.
      GetUserTweets sampleJson sampleLib sampleClient ''7'' [IncludeReplies]
        (startWorld [ok ''a:one:x1|t1'', ok ''c:three:y1|t2'', ok ''|''])
        = Returns ((itemsG, None), wG)
    \<and> twitter154_GetUserTweets sampleJson sampleLib sampleClient ''7'' [IncludeReplies]
        (startWorld [ok ''a:one:x1|t1'', ok ''c:three:y1|t2'', ok ''|''])
        = Returns ((itemsL, None), wL)
    \<and> length (sent wG) = 3 \<and> length (sent wL) = 3
    \<and> taken wG = taken wL \<and> script wG = script wL)
   \<and> (\<exists>eG wG eL wL.
      GetUserTweets sampleJson sampleLib sampleClient ''7'' [IncludeReplies]
        (startWorld [ok ''a:one:x1|t1'', Inr \<lparr>StatusCode = 500, Body = Inr []\<rparr>])
        = Returns (([], Some eG), wG)
    \<and> twitter154_GetUserTweets sampleJson sampleLib sampleClient ''7'' [IncludeReplies]
        (startWorld [ok ''a:one:x1|t1'', Inr \<lparr>StatusCode = 500, Body = Inr []\<rparr>])
        = Returns (([], Some eL), wL)
    \<and> length (sent wG) = 2 \<and> length (sent wL) = 2
    \<and> taken wG = taken wL \<and> script wG = script wL)"
proof -
  let ?a = "\<lparr>TweetId = ''a'', Text = ''one'', MediaUrl = \<lparr>arr = 0, len = 1, cap = 4\<rparr>\<rparr>"
  let ?p = "getUserTweetsParams ''7'' [IncludeReplies]"
  let ?s1 = "[ok ''a:one:x1|t1'', ok ''c:three:y1|t2'', ok ''|'']"
  let ?s2 = "[ok ''a:one:x1|t1'', Inr \<lparr>StatusCode = 500, Body = Inr []\<rparr>]"
  have pg1: "pagesOf sampleJson zeroResponse [] ?s1
    = [(\<lparr>Results = [?a], ResultsSpare = [zeroTweet, zeroTweet, zeroTweet],
          ContinuationToken = ''t1''\<rparr>, [[''x1'', [], [], []]]),
       (\<lparr>Results = [\<lparr>TweetId = ''c'', Text = ''three'',
                       MediaUrl = \<lparr>arr = 0, len = 1, cap = 4\<rparr>\<rparr>],
          ResultsSpare = [zeroTweet, zeroTweet, zeroTweet],
          ContinuationToken = ''t2''\<rparr>, [[''y1'', [], [], []]]),
       (\<lparr>Results = [], ResultsSpare = [], ContinuationToken = []\<rparr>, [[''y1'', [], [], []]])]"
    by code_simp
  have pl1: "pagesOf (\<lambda>d r. sampleJson d zeroResponse) zeroResponse [] ?s1
    = [(\<lparr>Results = [?a], ResultsSpare = [zeroTweet, zeroTweet, zeroTweet],
          ContinuationToken = ''t1''\<rparr>, [[''x1'', [], [], []]]),
       (\<lparr>Results = [\<lparr>TweetId = ''c'', Text = ''three'',
                       MediaUrl = \<lparr>arr = 1, len = 1, cap = 4\<rparr>\<rparr>],
          ResultsSpare = [zeroTweet, zeroTweet, zeroTweet],
          ContinuationToken = ''t2''\<rparr>, [[''x1'', [], [], []], [''y1'', [], [], []]]),
       (\<lparr>Results = [], ResultsSpare = [], ContinuationToken = []\<rparr>,
        [[''x1'', [], [], []], [''y1'', [], [], []]])]"
    by code_simp
  have pg2: "pagesOf sampleJson zeroResponse [] ?s2
    = [(\<lparr>Results = [?a], ResultsSpare = [zeroTweet, zeroTweet, zeroTweet],
          ContinuationToken = ''t1''\<rparr>, [[''x1'', [], [], []]])]"
    by code_simp
  have pl2: "pagesOf (\<lambda>d r. sampleJson d zeroResponse) zeroResponse [] ?s2
    = [(\<lparr>Results = [?a], ResultsSpare = [zeroTweet, zeroTweet, zeroTweet],
          ContinuationToken = ''t1''\<rparr>, [[''x1'', [], [], []]])]"
    by code_simp
  have r: "ready sampleClient" by code_simp
  have acc: "accepted sampleLib sampleClient [''user'', ''tweets''] ?p"
    "accepted sampleLib sampleClient [''user'', ''tweets'', ''continuation'']
       (?p @ [continuationParam ''t1''])"
    "accepted sampleLib sampleClient [''user'', ''tweets'', ''continuation'']
       (?p @ [continuationParam ''t2''])"
    by code_simp+
  have accL: "twitter154_accepted sampleLib sampleClient [''user'', ''tweets''] ?p"
    "twitter154_accepted sampleLib sampleClient [''user'', ''tweets'', ''continuation'']
       (?p @ [continuationParam ''t1''])"
    "twitter154_accepted sampleLib sampleClient [''user'', ''tweets'', ''continuation'']
       (?p @ [continuationParam ''t2''])"
    by code_simp+
  have tok1: "map (\<lambda>p. ContinuationToken (fst p))
                (pagesOf (\<lambda>d r. sampleJson d zeroResponse) zeroResponse
                   (memory (startWorld ?s1)) (script (startWorld ?s1)))
              = map (\<lambda>p. ContinuationToken (fst p))
                (pagesOf sampleJson zeroResponse
                   (memory (startWorld ?s1)) (script (startWorld ?s1)))"
    by (simp add: startWorld_def pg1 pl1 del: pagesOf.simps)
  have tok2: "map (\<lambda>p. ContinuationToken (fst p))
                (pagesOf (\<lambda>d r. sampleJson d zeroResponse) zeroResponse
                   (memory (startWorld ?s2)) (script (startWorld ?s2)))
              = map (\<lambda>p. ContinuationToken (fst p))
                (pagesOf sampleJson zeroResponse
                   (memory (startWorld ?s2)) (script (startWorld ?s2)))"
    by (simp add: startWorld_def pg2 pl2 del: pagesOf.simps)
  have A: "\<exists>itemsG wG itemsL wL.
      GetUserTweets sampleJson sampleLib sampleClient ''7'' [IncludeReplies] (startWorld ?s1)
        = Returns ((itemsG, None), wG)
    \<and> twitter154_GetUserTweets sampleJson sampleLib sampleClient ''7'' [IncludeReplies]
        (startWorld ?s1) = Returns ((itemsL, None), wL)
    \<and> length (sent wG) = 3 \<and> length (sent wL) = 3
    \<and> taken wG = taken wL \<and> script wG = script wL"
    using GetUserTweets_versions_agree
      [where k = "Suc (Suc 0)", OF r tok1 acc(1) accL(1), THEN conjunct1]
      acc accL
    by (auto simp add: startWorld_def pg1 less_Suc_eq numeral_3_eq_3 simp del: pagesOf.simps)
  have B: "\<exists>eG wG eL wL.
      GetUserTweets sampleJson sampleLib sampleClient ''7'' [IncludeReplies] (startWorld ?s2)
        = Returns (([], Some eG), wG)
    \<and> twitter154_GetUserTweets sampleJson sampleLib sampleClient ''7'' [IncludeReplies]
        (startWorld ?s2) = Returns (([], Some eL), wL)
    \<and> length (sent wG) = 2 \<and> length (sent wL) = 2
    \<and> taken wG = taken wL \<and> script wG = script wL"
    using GetUserTweets_versions_agree [OF r tok2 acc(1) accL(1), THEN conjunct2]
      acc accL
    by (auto simp add: startWorld_def pg2 numeral_2_eq_2 simp del: pagesOf.simps)
  from A B show ?thesis by blast
qed

end
